theory Spec2Isabelle
  imports Main "HOL-Library.Multiset"
begin

section \<open>Strings and email normalisation\<close>

text \<open>
  A JavaScript string is modelled as a \<open>string\<close>: each \<open>char\<close> stands for one code unit in
  the range 0..255 (Latin-1). \<open>String.prototype.toLowerCase\<close> maps the upper-case letters of
  that range (A-Z, and 0xC0-0xDE without the multiplication sign 0xD7) 32 places up and leaves
  every other code unit alone.
\<close>

definition lowerChar :: "char \<Rightarrow> char" where
  "lowerChar c =
     (let n = (of_char c :: nat)
      in if (65 \<le> n \<and> n \<le> 90) \<or> (192 \<le> n \<and> n \<le> 222 \<and> n \<noteq> 215)
         then char_of (n + 32) else c)"

definition toLowerCase :: "string \<Rightarrow> string" where
  "toLowerCase s = map lowerChar s"

section \<open>Storage\<close>

text \<open>
  The entities live in one table (\<open>@TableInheritance\<close> on \<open>User\<close>, one row per user with a
  discriminator column \<open>type\<close>) and one join table \<open>teacher_students\<close> (teacher id, student id).
  The storage engine is outside the repository; what the code relies on is modelled here:
  \<^item> a repository of a child entity only sees the rows of its own type;
  \<^item> \<open>email = ?\<close> and \<open>email IN (...)\<close> compare with the column's collation, which is a
    setting of the storage: \<open>Binary\<close> compares code unit by code unit, \<open>CaseInsensitive\<close>
    (the default of MySQL, the engine named in ormconfig.ts) ignores letter case;
  \<^item> \<open>@Unique(['email'])\<close> rejects an insert whose email the collation equates with a stored one;
  \<^item> \<open>save\<close> runs in one transaction: it either applies all its writes or none;
  \<^item> no query of the code has an \<open>ORDER BY\<close>, so the engine is free in the order of the rows
    it returns. The model returns them in the order of the list \<open>users\<close>; that order is a choice
    of the model, and the general statements below speak of the set, the counts or the length
    of such a result, not of its order.
\<close>

datatype collation = Binary | CaseInsensitive

fun coll_eq :: "collation \<Rightarrow> string \<Rightarrow> string \<Rightarrow> bool" where
  "coll_eq Binary a b = (a = b)"
| "coll_eq CaseInsensitive a b = (toLowerCase a = toLowerCase b)"

datatype user_type = TeacherType | StudentType

record user_row =
  row_id :: nat
  row_email :: string
  row_type :: user_type
  row_isSuspended :: bool

record database =
  users :: "user_row list"
  teacher_students :: "(nat \<times> nat) list"
  collation :: collation

section \<open>Entities (src/entities)\<close>

text \<open>\<open>uid\<close> is the field \<open>id\<close> of \<open>User\<close>: \<open>None\<close> while the entity has not been saved.\<close>

record User =
  uid :: "nat option"
  email :: string

record Student = User +
  isSuspended :: bool

record Teacher = User +
  students :: "Student list"

datatype error =
    InvalidInput string
  | ConflictError string
  | NotFound string
  | InternalError

definition new_Student :: "string \<Rightarrow> Student" where
  "new_Student e = \<lparr>uid = None, email = e, isSuspended = False\<rparr>"

definition student_of_row :: "user_row \<Rightarrow> Student" where
  "student_of_row r = \<lparr>uid = Some (row_id r), email = row_email r, isSuspended = row_isSuspended r\<rparr>"

definition is_student :: "user_row \<Rightarrow> bool" where
  "is_student r = (row_type r = StudentType)"

definition is_teacher :: "user_row \<Rightarrow> bool" where
  "is_teacher r = (row_type r = TeacherType)"

text \<open>The eager relation \<open>students\<close> of a teacher: the student rows joined to the teacher's id.\<close>

definition roster :: "database \<Rightarrow> nat \<Rightarrow> Student list" where
  "roster db tid =
     map student_of_row
       (filter (\<lambda>r. is_student r \<and> (tid, row_id r) \<in> set (teacher_students db)) (users db))"

definition teacher_of_row :: "database \<Rightarrow> user_row \<Rightarrow> Teacher" where
  "teacher_of_row db r = \<lparr>uid = Some (row_id r), email = row_email r, students = roster db (row_id r)\<rparr>"

text \<open>\<open>email IN (:...emails)\<close> under the collation of the storage.\<close>

definition email_in :: "database \<Rightarrow> string \<Rightarrow> string list \<Rightarrow> bool" where
  "email_in db e es = list_ex (coll_eq (collation db) e) es"

text \<open>\<open>getRepository(Teacher).findOne({where: {email}})\<close>: the first teacher row that matches.\<close>

definition findOne_Teacher :: "database \<Rightarrow> string \<Rightarrow> Teacher option" where
  "findOne_Teacher db e =
     map_option (teacher_of_row db)
       (find (\<lambda>r. is_teacher r \<and> coll_eq (collation db) (row_email r) e) (users db))"

definition findOne_Student :: "database \<Rightarrow> string \<Rightarrow> Student option" where
  "findOne_Student db e =
     map_option student_of_row
       (find (\<lambda>r. is_student r \<and> coll_eq (collation db) (row_email r) e) (users db))"

text \<open>\<open>User.queryByEmails(emails, Student).getMany()\<close>.\<close>

definition queryByEmails_Student :: "database \<Rightarrow> string list \<Rightarrow> Student list" where
  "queryByEmails_Student db es =
     map student_of_row (filter (\<lambda>r. is_student r \<and> email_in db (row_email r) es) (users db))"

text \<open>\<open>Teacher.findOrCreate\<close> (Teacher.ts): a thrown \<open>Error\<close> is the \<open>InvalidInput\<close> result.\<close>

definition findOrCreate :: "database \<Rightarrow> string \<Rightarrow> error + Teacher" where
  "findOrCreate db email0 =
     (if length email0 = 0 then Inl (InvalidInput ''email cannot be empty'')
      else let e = toLowerCase email0
           in case findOne_Teacher db e of
                Some t \<Rightarrow> Inr t
              | None \<Rightarrow> Inr \<lparr>uid = None, email = e, students = []\<rparr>)"

text \<open>\<open>Student.findOrCreateByEmails\<close> (Student.ts). \<open>existingEmails\<close> is a JavaScript \<open>Set\<close> of
  strings, so \<open>has\<close> is exact string equality.\<close>

definition findOrCreateByEmails :: "database \<Rightarrow> string list \<Rightarrow> error + Student list" where
  "findOrCreateByEmails db emails0 =
     (if length emails0 = 0 then Inr []
      else if list_ex (\<lambda>e. length e = 0) emails0 then Inl (InvalidInput ''email cannot be empty'')
      else let emails = map toLowerCase emails0;
               existing = queryByEmails_Student db emails;
               existingEmails = set (map email existing);
               missingEmails = filter (\<lambda>e. e \<notin> existingEmails) emails;
               missing = map new_Student missingEmails
           in Inr (existing @ missing))"

section \<open>Persistence\<close>

text \<open>The id generated for a new row (\<open>@PrimaryGeneratedColumn\<close>): above every id in use.\<close>

definition fresh_id :: "database \<Rightarrow> nat" where
  "fresh_id db = Suc (fold max (map row_id (users db)) 0)"

text \<open>An insert into the user table; \<open>None\<close> is the violation of \<open>@Unique(['email'])\<close>.\<close>

definition insert_user :: "database \<Rightarrow> string \<Rightarrow> user_type \<Rightarrow> bool \<Rightarrow> (database \<times> nat) option" where
  "insert_user db e ty s =
     (if list_ex (\<lambda>r. coll_eq (collation db) (row_email r) e) (users db) then None
      else let i = fresh_id db
           in Some (db\<lparr>users := users db @ [\<lparr>row_id = i, row_email = e, row_type = ty, row_isSuspended = s\<rparr>]\<rparr>, i))"

text \<open>The cascade of \<open>Teacher.save\<close> over the roster: an entity without id is inserted, an
  entity with an id is already stored (registerStudents changes no field of a loaded student).
  The result lists the ids of the roster in order.\<close>

fun save_students :: "database \<Rightarrow> Student list \<Rightarrow> (database \<times> nat list) option" where
  "save_students db [] = Some (db, [])"
| "save_students db (s # ss) =
     (case uid s of
        Some i \<Rightarrow>
          (case save_students db ss of
             None \<Rightarrow> None
           | Some (db', ids) \<Rightarrow> Some (db', i # ids))
      | None \<Rightarrow>
          (case insert_user db (email s) StudentType (isSuspended s) of
             None \<Rightarrow> None
           | Some (db1, i) \<Rightarrow>
               (case save_students db1 ss of
                  None \<Rightarrow> None
                | Some (db', ids) \<Rightarrow> Some (db', i # ids))))"

text \<open>The join rows of the roster: a row is inserted for every member not yet joined.\<close>

definition add_link :: "nat \<Rightarrow> nat \<Rightarrow> database \<Rightarrow> database" where
  "add_link tid sid db =
     (if (tid, sid) \<in> set (teacher_students db) then db
      else db\<lparr>teacher_students := teacher_students db @ [(tid, sid)]\<rparr>)"

definition add_links :: "database \<Rightarrow> nat \<Rightarrow> nat list \<Rightarrow> database" where
  "add_links db tid sids = fold (add_link tid) sids db"

text \<open>\<open>teacher.save()\<close>: the teacher row if the teacher is new, the new students, the new join
  rows; \<open>None\<close> when an insert is rejected, and then nothing is written.\<close>

definition save_Teacher :: "database \<Rightarrow> Teacher \<Rightarrow> database option" where
  "save_Teacher db t =
     (case (case uid t of
              Some i \<Rightarrow> Some (db, i)
            | None \<Rightarrow> insert_user db (email t) TeacherType False) of
        None \<Rightarrow> None
      | Some (db1, tid) \<Rightarrow>
          (case save_students db1 (students t) of
             None \<Rightarrow> None
           | Some (db2, sids) \<Rightarrow> Some (add_links db2 tid sids)))"

text \<open>\<open>student.save()\<close>: an update of the stored row by id for a loaded student (the column
  \<open>isSuspended\<close> is the only one suspendStudent changes), an insert for a new one.\<close>

definition save_Student :: "database \<Rightarrow> Student \<Rightarrow> database option" where
  "save_Student db s =
     (case uid s of
        Some i \<Rightarrow>
          Some (db\<lparr>users := map (\<lambda>r. if row_id r = i then r\<lparr>row_isSuspended := isSuspended s\<rparr> else r)
                               (users db)\<rparr>)
      | None \<Rightarrow> map_option fst (insert_user db (email s) StudentType (isSuspended s)))"

section \<open>ApiController\<close>

subsection \<open>POST /register\<close>

text \<open>The responses: 400 with the message is \<open>ConflictError\<close>, 500 is \<open>InternalError\<close>, 204 is
  \<open>Inr ()\<close>. The second component is the storage after the request.\<close>

definition registerStudents :: "database \<Rightarrow> string \<Rightarrow> string list \<Rightarrow> (error + unit) \<times> database" where
  "registerStudents db teacherEmail studentEmails =
     (if teacherEmail \<in> set studentEmails
      then (Inl (ConflictError ''teacher and student cannot be the same''), db)
      else case findOrCreate db teacherEmail of
             Inl e \<Rightarrow> (Inl e, db)
           | Inr teacher \<Rightarrow>
               (case findOrCreateByEmails db studentEmails of
                  Inl e \<Rightarrow> (Inl e, db)
                | Inr studs \<Rightarrow>
                    let currentStudentEmails = set (map email (students teacher));
                        added = filter (\<lambda>s. email s \<notin> currentStudentEmails) studs;
                        teacher' = teacher\<lparr>students := (students teacher @ added)\<rparr>
                    in (case save_Teacher db teacher' of
                          None \<Rightarrow> (Inl InternalError, db)
                        | Some db' \<Rightarrow> (Inr (), db'))))"

subsection \<open>GET /commonstudents\<close>

text \<open>The query of lines 100-103: the teachers whose email is among \<open>emails\<close>, each once, with
  their rosters.\<close>

definition query_Teachers :: "database \<Rightarrow> string list \<Rightarrow> Teacher list" where
  "query_Teachers db emails =
     map (teacher_of_row db)
       (filter (\<lambda>r. is_teacher r \<and> email_in db (row_email r) emails) (users db))"

text \<open>\<open>studentLists.reduce((a, b) => a.filter(elem => b.includes(elem)))\<close>, with the guard of
  line 110 for the empty array.\<close>

definition intersect :: "string list list \<Rightarrow> string list" where
  "intersect studentLists =
     (case studentLists of
        [] \<Rightarrow> []
      | a # bs \<Rightarrow> foldl (\<lambda>a b. filter (\<lambda>elem. elem \<in> set b) a) a bs)"

definition commonStudents :: "Teacher list \<Rightarrow> string list" where
  "commonStudents teachers = intersect (map (\<lambda>t. map email (students t)) teachers)"

definition listCommonStudents :: "database \<Rightarrow> string list \<Rightarrow> error + string list" where
  "listCommonStudents db emails =
     (let teachers = query_Teachers db emails
      in if length teachers < length emails then Inl (NotFound ''teacher not found'')
         else Inr (commonStudents teachers))"

subsection \<open>POST /suspend\<close>

definition suspendStudent :: "database \<Rightarrow> string \<Rightarrow> (error + unit) \<times> database" where
  "suspendStudent db studentEmail =
     (case findOne_Student db studentEmail of
        None \<Rightarrow> (Inl (NotFound ''student not found''), db)
      | Some student \<Rightarrow>
          (case save_Student db (student\<lparr>isSuspended := True\<rparr>) of
             None \<Rightarrow> (Inl InternalError, db)
           | Some db' \<Rightarrow> (Inr (), db')))"

subsection \<open>POST /retrievefornotifications\<close>

text \<open>
  The pattern \<open>/(?<=@)(\S+@\S+\.\S+)/gi\<close> is run by a backtracking matcher. \<open>\S\<close> is every code
  unit that is neither white space nor a line terminator; in the range 0..255 those are
  9-13, 32 and 160. The flag \<open>i\<close> changes nothing: the two literals have no letter case.
\<close>

definition isSpace :: "char \<Rightarrow> bool" where
  "isSpace c = ((of_char c :: nat) \<in> set [9, 10, 11, 12, 13, 32, 160])"

datatype atom = Lit char | NonSpacePlus

text \<open>A greedy \<open>+\<close>: the longest repetition first, one code unit less after each failure of the
  rest of the pattern (\<open>cont\<close>); the result is the number of code units matched.\<close>

fun tryLens :: "(string \<Rightarrow> nat option) \<Rightarrow> string \<Rightarrow> nat \<Rightarrow> nat option" where
  "tryLens cont s 0 = None"
| "tryLens cont s (Suc k) =
     (case cont (drop (Suc k) s) of
        Some n \<Rightarrow> Some (Suc k + n)
      | None \<Rightarrow> tryLens cont s k)"

primrec matchHere :: "atom list \<Rightarrow> string \<Rightarrow> nat option" where
  "matchHere [] s = Some 0"
| "matchHere (a # rest) s =
     (case a of
        Lit c \<Rightarrow>
          (case s of
             [] \<Rightarrow> None
           | x # xs \<Rightarrow> if x = c then map_option Suc (matchHere rest xs) else None)
      | NonSpacePlus \<Rightarrow>
          tryLens (matchHere rest) s (length (takeWhile (\<lambda>x. \<not> isSpace x) s)))"

definition emailRegex :: "atom list" where
  "emailRegex = [NonSpacePlus, Lit CHR ''@'', NonSpacePlus, Lit CHR ''.'', NonSpacePlus]"

text \<open>The loop of a global match: at each position, from left to right, the lookbehind \<open>(?<=@)\<close>
  asks for \<open>@\<close> as the previous code unit (\<open>prev\<close>), a match is recorded and the search goes on
  behind it (one code unit further after an empty match).\<close>

function matchAll :: "char option \<Rightarrow> string \<Rightarrow> string list" where
  "matchAll prev [] = []"
| "matchAll prev (x # xs) =
     (case (if prev = Some CHR ''@'' then matchHere emailRegex (x # xs) else None) of
        Some n \<Rightarrow>
          take n (x # xs)
            # matchAll (Some (last (take (max n 1) (x # xs)))) (drop (max n 1) (x # xs))
      | None \<Rightarrow> matchAll (Some x) xs)"
  by pat_completeness auto
termination
  by (relation "measure (\<lambda>(prev, s). length s)") auto

text \<open>\<open>notification.match(emailRegex)\<close>: \<open>null\<close> when nothing matches.\<close>

definition match_emailRegex :: "string \<Rightarrow> string list option" where
  "match_emailRegex notification =
     (let ms = matchAll None notification in if ms = [] then None else Some ms)"

text \<open>The query of lines 176-180: \<open>u.isSuspended = 0 AND u.email IN (:...emails)\<close> on students.\<close>

definition query_mentioned :: "database \<Rightarrow> string list \<Rightarrow> Student list" where
  "query_mentioned db matches =
     map student_of_row
       (filter (\<lambda>r. is_student r \<and> \<not> row_isSuspended r \<and> email_in db (row_email r) matches)
          (users db))"

text \<open>\<open>[...new Set(xs)]\<close>: the first occurrence of each string, in order.\<close>

definition dedupe :: "string list \<Rightarrow> string list" where
  "dedupe xs = fold (\<lambda>x acc. if x \<in> set acc then acc else acc @ [x]) xs []"

definition listStudentsForNotification :: "database \<Rightarrow> string \<Rightarrow> string \<Rightarrow> error + string list" where
  "listStudentsForNotification db teacherEmail notification =
     (case findOne_Teacher db teacherEmail of
        None \<Rightarrow> Inl (NotFound ''teacher not found'')
      | Some teacher \<Rightarrow>
          let studentEmails = map email (filter (\<lambda>s. \<not> isSuspended s) (students teacher));
              pushed =
                (case match_emailRegex notification of
                   None \<Rightarrow> studentEmails
                 | Some matches \<Rightarrow>
                     let mentioned = query_mentioned db matches
                     in if length mentioned > 0 then studentEmails @ map email mentioned
                        else studentEmails)
          in Inr (dedupe pushed))"

section \<open>Example storage states\<close>

text \<open>Two teachers and three students; \<open>s2\<close> is suspended. \<open>t1\<close> has \<open>s1\<close> and \<open>s2\<close>, \<open>t2\<close> has
  \<open>s1\<close> and \<open>s3\<close>.\<close>

definition db_example :: database where
  "db_example =
     \<lparr>users =
        [\<lparr>row_id = 1, row_email = ''t1@teacher.com'', row_type = TeacherType, row_isSuspended = False\<rparr>,
         \<lparr>row_id = 2, row_email = ''t2@teacher.com'', row_type = TeacherType, row_isSuspended = False\<rparr>,
         \<lparr>row_id = 3, row_email = ''s1@student.com'', row_type = StudentType, row_isSuspended = False\<rparr>,
         \<lparr>row_id = 4, row_email = ''s2@student.com'', row_type = StudentType, row_isSuspended = True\<rparr>,
         \<lparr>row_id = 5, row_email = ''s3@student.com'', row_type = StudentType, row_isSuspended = False\<rparr>],
      teacher_students = [(1, 3), (1, 4), (2, 3), (2, 5)],
      collation = CaseInsensitive\<rparr>"

definition db_example_binary :: database where
  "db_example_binary = db_example\<lparr>collation := Binary\<rparr>"

definition db_empty :: database where
  "db_empty = \<lparr>users = [], teacher_students = [], collation = CaseInsensitive\<rparr>"

definition teacher_t1 :: Teacher where
  "teacher_t1 = teacher_of_row db_example (users db_example ! 0)"

definition teacher_t2 :: Teacher where
  "teacher_t2 = teacher_of_row db_example (users db_example ! 1)"

definition teacher_t3 :: Teacher where
  "teacher_t3 = \<lparr>uid = Some 9, email = ''t3@teacher.com'', students = [new_Student ''s9@student.com'']\<rparr>"


section \<open>Properties of storage states\<close>

text \<open>Every stored email is in lower case (registerStudents, the only operation that inserts
  rows, stores lower-cased emails), and no two rows share an email.\<close>

definition lowercase_stored :: "database \<Rightarrow> bool" where
  "lowercase_stored db = list_all (\<lambda>r. toLowerCase (row_email r) = row_email r) (users db)"

definition unique_emails :: "database \<Rightarrow> bool" where
  "unique_emails db = distinct (map row_email (users db))"

text \<open>A student row with exactly this email is stored.\<close>

definition stored_student :: "database \<Rightarrow> string \<Rightarrow> bool" where
  "stored_student db e = list_ex (\<lambda>r. is_student r \<and> row_email r = e) (users db)"

text \<open>A well-formed storage: lower-case emails, no email twice, no id twice.\<close>

definition wf_db :: "database \<Rightarrow> bool" where
  "wf_db db = (lowercase_stored db \<and> unique_emails db \<and> distinct (map row_id (users db)))"

text \<open>The id under which a roster member is stored after a save: its own id when it was
  loaded, the id of a student row with its email when it was new.\<close>

definition linked_row :: "database \<Rightarrow> Student \<Rightarrow> nat \<Rightarrow> bool" where
  "linked_row db s i =
     (case uid s of
        Some j \<Rightarrow> i = j
      | None \<Rightarrow> (\<exists>r\<in>set (users db). row_id r = i \<and> row_email r = email s \<and> is_student r))"

text \<open>The storage states the operations can produce from an empty storage. The two queries
  (common students, notification recipients) write nothing.\<close>

inductive reachable :: "database \<Rightarrow> bool" where
  init: "reachable \<lparr>users = [], teacher_students = [], collation = c\<rparr>"
| register: "reachable db \<Longrightarrow> reachable (snd (registerStudents db t ss))"
| suspend: "reachable db \<Longrightarrow> reachable (snd (suspendStudent db e))"


section \<open>The grammar of mentions, as the specification words it\<close>



text \<open>The tokens of a text: its maximal runs of code units that are not white space.\<close>

function tokens :: "string \<Rightarrow> string list" where
  "tokens s =
     (case dropWhile isSpace s of
        [] \<Rightarrow> []
      | x # xs \<Rightarrow>
          takeWhile (\<lambda>c. \<not> isSpace c) (x # xs) # tokens (dropWhile (\<lambda>c. \<not> isSpace c) xs))"
  by pat_completeness auto
termination
proof (relation "measure length")
  show "wf (measure length)" by simp
next
  fix s :: string and x xs
  assume "dropWhile isSpace s = x # xs"
  then have "length (x # xs) \<le> length s"
    by (metis length_dropWhile_le)
  moreover have "length (dropWhile (\<lambda>c. \<not> isSpace c) xs) \<le> length xs"
    by (rule length_dropWhile_le)
  ultimately show "(dropWhile (\<lambda>c. \<not> isSpace c) xs, s) \<in> measure length" by simp
qed





section \<open>Auxiliary facts about lists\<close>

lemma map_update_distinct:
  assumes "distinct (map f xs)" and "k < length xs"
  shows "map (\<lambda>r. if f r = f (xs ! k) then g r else r) xs = xs[k := g (xs ! k)]"
proof (rule nth_equalityI)
  show "length (map (\<lambda>r. if f r = f (xs ! k) then g r else r) xs) = length (xs[k := g (xs ! k)])"
    by simp
next
  fix i assume "i < length (map (\<lambda>r. if f r = f (xs ! k) then g r else r) xs)"
  then have i: "i < length xs" by simp
  from assms i have "(f (xs ! i) = f (xs ! k)) = (i = k)"
    using nth_eq_iff_index_eq [of "map f xs" i k] by simp
  with i show "map (\<lambda>r. if f r = f (xs ! k) then g r else r) xs ! i = xs[k := g (xs ! k)] ! i"
    by (auto simp: nth_list_update)
qed

lemma find_Some_index:
  "find P xs = Some x \<Longrightarrow> \<exists>k<length xs. xs ! k = x \<and> P x \<and> (\<forall>j<k. \<not> P (xs ! j))"
  by (auto simp: find_Some_iff)

lemma count_list_distinct: "distinct xs \<Longrightarrow> count_list xs e = (if e \<in> set xs then 1 else 0)"
  by (induction xs) auto

lemma count_list_filter: "count_list (filter P xs) e = (if P e then count_list xs e else 0)"
  by (induction xs) auto

lemma count_list_append: "count_list (xs @ ys) e = count_list xs e + count_list ys e"
  by (induction xs) auto

section \<open>Normalisation and the comparison of the storage\<close>

lemma lowerChar_idem: "lowerChar (lowerChar c) = lowerChar c"
proof -
  have lt: "(of_char c :: nat) < 256" by (rule nat_of_char_less_256)
  show ?thesis
    using lt by (auto simp: lowerChar_def Let_def of_char_of)
qed

lemma toLowerCase_idem: "toLowerCase (toLowerCase s) = toLowerCase s"
  by (simp add: toLowerCase_def lowerChar_idem)

lemma coll_eq_lower:
  "toLowerCase a = a \<Longrightarrow> toLowerCase b = b \<Longrightarrow> coll_eq c a b = (a = b)"
  by (cases c) auto

lemma email_in_lower:
  assumes "toLowerCase a = a" and "\<forall>e\<in>set es. toLowerCase e = e"
  shows "email_in db a es = (a \<in> set es)"
  using assms by (auto simp: email_in_def list_ex_iff coll_eq_lower)

lemma email_student_of_row: "email (student_of_row r) = row_email r"
  by (simp add: student_of_row_def)

lemma email_new_Student: "email (new_Student e) = e"
  by (simp add: new_Student_def)

section \<open>The batched lookup of students on a storage with lower-case emails\<close>

lemma queryByEmails_Student_lower:
  assumes "lowercase_stored db" and "\<forall>e\<in>set es. toLowerCase e = e"
  shows "queryByEmails_Student db es
           = map student_of_row (filter (\<lambda>r. is_student r \<and> row_email r \<in> set es) (users db))"
proof -
  have "filter (\<lambda>r. is_student r \<and> email_in db (row_email r) es) (users db)
          = filter (\<lambda>r. is_student r \<and> row_email r \<in> set es) (users db)"
  proof (rule filter_cong [OF refl])
    fix r assume "r \<in> set (users db)"
    with assms(1) have "toLowerCase (row_email r) = row_email r"
      by (simp add: lowercase_stored_def list_all_iff)
    with assms(2) show "(is_student r \<and> email_in db (row_email r) es)
                          = (is_student r \<and> row_email r \<in> set es)"
      by (simp add: email_in_lower)
  qed
  then show ?thesis by (simp add: queryByEmails_Student_def)
qed

lemma stored_student_set:
  "e \<in> set L \<Longrightarrow>
     (e \<in> set (map row_email (filter (\<lambda>r. is_student r \<and> row_email r \<in> set L) (users db))))
       = stored_student db e"
  by (force simp: stored_student_def list_ex_iff)

lemma findOrCreateByEmails_lower:
  assumes "\<forall>e\<in>set emails. e \<noteq> []"
      and "lowercase_stored db"
  shows "findOrCreateByEmails db emails
           = Inr (map student_of_row
                    (filter (\<lambda>r. is_student r \<and> row_email r \<in> set (map toLowerCase emails)) (users db))
                  @ map new_Student (filter (\<lambda>e. \<not> stored_student db e) (map toLowerCase emails)))"
proof -
  let ?L = "map toLowerCase emails"
  have low: "\<forall>e\<in>set ?L. toLowerCase e = e" by (auto simp: toLowerCase_idem)
  have q: "queryByEmails_Student db ?L
             = map student_of_row (filter (\<lambda>r. is_student r \<and> row_email r \<in> set ?L) (users db))"
    using assms(2) low by (rule queryByEmails_Student_lower)
  have m: "filter (\<lambda>e. e \<notin> set (map email (map student_of_row
                       (filter (\<lambda>r. is_student r \<and> row_email r \<in> set ?L) (users db))))) ?L
             = filter (\<lambda>e. \<not> stored_student db e) ?L"
  proof (rule filter_cong [OF refl])
    fix e assume "e \<in> set ?L"
    then show "(e \<notin> set (map email (map student_of_row
                       (filter (\<lambda>r. is_student r \<and> row_email r \<in> set ?L) (users db)))))
                 = (\<not> stored_student db e)"
      using stored_student_set [of e ?L db]
      by (simp add: comp_def email_student_of_row)
  qed
  have ne: "\<not> list_ex (\<lambda>e. length e = 0) emails" using assms(1) by (simp add: list_ex_iff)
  show ?thesis
  proof (cases "emails = []")
    case True
    then show ?thesis by (simp add: findOrCreateByEmails_def)
  next
    case False
    then have "findOrCreateByEmails db emails
          = Inr (queryByEmails_Student db ?L
                 @ map new_Student
                     (filter (\<lambda>e. e \<notin> set (map email (queryByEmails_Student db ?L))) ?L))"
      using ne by (simp add: findOrCreateByEmails_def Let_def)
    then show ?thesis by (simp only: m q)
  qed
qed


section \<open>The matcher and the extraction of mentions\<close>



















lemma tokens_spaces: "\<forall>x\<in>set sps. isSpace x \<Longrightarrow> tokens (sps @ s) = tokens s"
proof -
  assume a: "\<forall>x\<in>set sps. isSpace x"
  then have "dropWhile isSpace (sps @ s) = dropWhile isSpace s"
    by (simp add: dropWhile_append2)
  then show ?thesis by (simp add: tokens.simps [of "sps @ s"] tokens.simps [of s])
qed




section \<open>Inserts and the cascade of a save\<close>

lemma coll_eq_refl: "coll_eq c a a"
  by (cases c) simp_all

lemma fold_max_ge: "x \<in> set xs \<Longrightarrow> x \<le> fold max xs (m::nat)"
proof (induction xs arbitrary: m)
  case Nil
  then show ?case by simp
next
  case (Cons y ys)
  have mono: "a \<le> fold max ys a" for a :: nat
    by (induction ys arbitrary: a) (auto intro: order_trans [OF max.cobounded2])
  from Cons show ?case
  proof (cases "x = y")
    case True
    have "y \<le> max y m" by simp
    also have "\<dots> \<le> fold max ys (max y m)" by (rule mono)
    finally show ?thesis using True by simp
  next
    case False
    with Cons show ?thesis by simp
  qed
qed

lemma fresh_id_gt: "r \<in> set (users db) \<Longrightarrow> row_id r < fresh_id db"
  using fold_max_ge [of "row_id r" "map row_id (users db)" 0]
  by (simp add: fresh_id_def less_Suc_eq_le)

lemma insert_user_Some:
  assumes "insert_user db e ty s = Some (db', i)"
  shows "users db' = users db @ [\<lparr>row_id = i, row_email = e, row_type = ty, row_isSuspended = s\<rparr>]"
    and "teacher_students db' = teacher_students db"
    and "collation db' = collation db"
    and "i = fresh_id db"
    and "\<forall>r\<in>set (users db). \<not> coll_eq (collation db) (row_email r) e"
  using assms by (auto simp: insert_user_def Let_def list_ex_iff split: if_splits)

lemma insert_user_wf:
  assumes "insert_user db e ty s = Some (db', i)" and "wf_db db" and "toLowerCase e = e"
  shows "wf_db db'"
proof -
  note i = insert_user_Some [OF assms(1)]
  have ne: "\<forall>r\<in>set (users db). row_email r \<noteq> e"
    using i(5) coll_eq_refl by auto
  have id: "\<forall>r\<in>set (users db). row_id r \<noteq> i"
  proof
    fix r assume "r \<in> set (users db)"
    then have "row_id r < fresh_id db" by (rule fresh_id_gt)
    with i(4) show "row_id r \<noteq> i" by simp
  qed
  show ?thesis
    using assms(2,3) ne id unfolding wf_db_def lowercase_stored_def unique_emails_def i(1)
    by auto
qed

lemma insert_user_None:
  "r \<in> set (users db) \<Longrightarrow> coll_eq (collation db) (row_email r) e \<Longrightarrow> insert_user db e ty s = None"
  by (auto simp: insert_user_def list_ex_iff)


lemma linked_row_mono:
  "linked_row db s i \<Longrightarrow> set (users db) \<subseteq> set (users db') \<Longrightarrow> linked_row db' s i"
  by (auto simp: linked_row_def split: option.splits)

lemma save_students_post:
  assumes "save_students db xs = Some (db', ids)" and "wf_db db"
      and "\<forall>s\<in>set xs. uid s = None \<longrightarrow> toLowerCase (email s) = email s"
  shows "wf_db db' \<and> (\<exists>new. users db' = users db @ new \<and> (\<forall>r\<in>set new. is_student r))
       \<and> teacher_students db' = teacher_students db \<and> collation db' = collation db
       \<and> list_all2 (linked_row db') xs ids"
  using assms
proof (induction xs arbitrary: db db' ids)
  case Nil
  then show ?case by simp
next
  case (Cons s ss)
  show ?case
  proof (cases "uid s")
    case (Some j)
    with Cons.prems(1) obtain ids' where r: "save_students db ss = Some (db', ids')" and ids: "ids = j # ids'"
      by (auto split: option.splits)
    have ih: "wf_db db' \<and> (\<exists>new. users db' = users db @ new \<and> (\<forall>r\<in>set new. is_student r))
       \<and> teacher_students db' = teacher_students db \<and> collation db' = collation db
       \<and> list_all2 (linked_row db') ss ids'"
      using Cons.IH [OF r Cons.prems(2)] Cons.prems(3) by simp
    have "linked_row db' s j" using Some by (simp add: linked_row_def)
    with ih ids show ?thesis by simp
  next
    case None
    with Cons.prems(1) obtain db1 i ids' where
      ins: "insert_user db (email s) StudentType (isSuspended s) = Some (db1, i)"
      and r: "save_students db1 ss = Some (db', ids')" and ids: "ids = i # ids'"
      by (auto split: option.splits)
    note i = insert_user_Some [OF ins]
    have low: "toLowerCase (email s) = email s" using Cons.prems(3) None by simp
    have wf1: "wf_db db1" using ins Cons.prems(2) low by (rule insert_user_wf)
    have ih: "wf_db db' \<and> (\<exists>new. users db' = users db1 @ new \<and> (\<forall>r\<in>set new. is_student r))
       \<and> teacher_students db' = teacher_students db1 \<and> collation db' = collation db1
       \<and> list_all2 (linked_row db') ss ids'"
      using Cons.IH [OF r wf1] Cons.prems(3) by simp
    then obtain new where new: "users db' = users db1 @ new" "\<forall>r\<in>set new. is_student r" by blast
    let ?row = "\<lparr>row_id = i, row_email = email s, row_type = StudentType, row_isSuspended = isSuspended s\<rparr>"
    have u: "users db' = users db @ (?row # new)" using new(1) i(1) by simp
    have st: "\<forall>r\<in>set (?row # new). is_student r" using new(2) by (simp add: is_student_def)
    have "?row \<in> set (users db')" using u by simp
    then have "linked_row db' s i"
      using None by (auto simp: linked_row_def is_student_def intro!: bexI [of _ ?row])
    with ih ids u st i(2,3) show ?thesis by auto
  qed
qed

lemma save_students_loaded:
  "\<forall>s\<in>set xs. uid s \<noteq> None \<Longrightarrow> save_students db xs = Some (db, map (\<lambda>s. the (uid s)) xs)"
  by (induction xs) auto

lemma save_students_append:
  "\<forall>s\<in>set xs. uid s \<noteq> None \<Longrightarrow>
     save_students db (xs @ ys)
       = (case save_students db ys of
            None \<Rightarrow> None
          | Some (db', ids) \<Rightarrow> Some (db', map (\<lambda>s. the (uid s)) xs @ ids))"
  by (induction xs) (auto split: option.splits)

lemma add_link_simps:
  "users (add_link tid sid db) = users db"
  "collation (add_link tid sid db) = collation db"
  "set (teacher_students (add_link tid sid db)) = insert (tid, sid) (set (teacher_students db))"
  by (auto simp: add_link_def)

lemma add_links_post:
  "users (add_links db tid sids) = users db
   \<and> collation (add_links db tid sids) = collation db
   \<and> set (teacher_students (add_links db tid sids))
       = set (teacher_students db) \<union> (\<lambda>s. (tid, s)) ` set sids"
  unfolding add_links_def
  by (induction sids arbitrary: db) (auto simp: add_link_simps)

lemma add_links_noop:
  "\<forall>s\<in>set sids. (tid, s) \<in> set (teacher_students db) \<Longrightarrow> add_links db tid sids = db"
  unfolding add_links_def
  by (induction sids) (auto simp: add_link_def)

lemma wf_db_users: "users db' = users db \<Longrightarrow> wf_db db' = wf_db db"
  by (simp add: wf_db_def lowercase_stored_def unique_emails_def)

lemma save_Teacher_post:
  assumes "save_Teacher db t = Some db'" and "wf_db db"
      and "uid t = None \<longrightarrow> toLowerCase (email t) = email t"
      and "\<forall>s\<in>set (students t). uid s = None \<longrightarrow> toLowerCase (email s) = email s"
  shows "wf_db db' \<and> collation db' = collation db \<and> (\<exists>new. users db' = users db @ new)
       \<and> (\<exists>tid ids.
            (case uid t of
               Some i \<Rightarrow> tid = i
             | None \<Rightarrow> (\<exists>r\<in>set (users db'). row_id r = tid \<and> row_email r = email t \<and> is_teacher r))
          \<and> list_all2 (linked_row db') (students t) ids
          \<and> set (teacher_students db') = set (teacher_students db) \<union> (\<lambda>s. (tid, s)) ` set ids)"
proof -
  obtain db1 tid where
    first: "(case uid t of Some i \<Rightarrow> Some (db, i)
             | None \<Rightarrow> insert_user db (email t) TeacherType False) = Some (db1, tid)"
    using assms(1) by (auto simp: save_Teacher_def split: option.splits)
  then obtain db2 ids where
    second: "save_students db1 (students t) = Some (db2, ids)" and
    third: "db' = add_links db2 tid ids"
    using assms(1) by (auto simp: save_Teacher_def split: option.splits)
  have one: "wf_db db1 \<and> collation db1 = collation db \<and> (\<exists>new. users db1 = users db @ new)
             \<and> teacher_students db1 = teacher_students db
             \<and> (case uid t of
                   Some i \<Rightarrow> tid = i
                 | None \<Rightarrow> (\<exists>r\<in>set (users db1). row_id r = tid \<and> row_email r = email t \<and> is_teacher r))"
  proof (cases "uid t")
    case (Some i)
    with first have "db1 = db" "tid = i" by simp_all
    with Some assms(2) show ?thesis by simp
  next
    case None
    with first have ins: "insert_user db (email t) TeacherType False = Some (db1, tid)" by simp
    note i = insert_user_Some [OF ins]
    let ?row = "\<lparr>row_id = tid, row_email = email t, row_type = TeacherType, row_isSuspended = False\<rparr>"
    have low: "toLowerCase (email t) = email t" using assms(3) None by simp
    have wf1: "wf_db db1" using ins assms(2) low by (rule insert_user_wf)
    have "?row \<in> set (users db1)" unfolding i(1) by simp
    moreover have "row_id ?row = tid \<and> row_email ?row = email t \<and> is_teacher ?row"
      by (simp add: is_teacher_def)
    ultimately have ex: "\<exists>r\<in>set (users db1). row_id r = tid \<and> row_email r = email t \<and> is_teacher r"
      by (rule bexI [rotated])
    have "\<exists>new. users db1 = users db @ new" using i(1) by blast
    with wf1 i(2,3) ex show ?thesis unfolding None by simp
  qed
  have two: "wf_db db2 \<and> (\<exists>new. users db2 = users db1 @ new \<and> (\<forall>r\<in>set new. is_student r))
       \<and> teacher_students db2 = teacher_students db1 \<and> collation db2 = collation db1
       \<and> list_all2 (linked_row db2) (students t) ids"
  proof (rule save_students_post [OF second])
    show "wf_db db1" using one by simp
    show "\<forall>s\<in>set (students t). uid s = None \<longrightarrow> toLowerCase (email s) = email s" by (rule assms(4))
  qed
  note three = add_links_post [of db2 tid ids]
  have u: "users db' = users db2" using three third by simp
  have wf: "wf_db db'" using two wf_db_users [OF u] by simp
  have col: "collation db' = collation db" using one two three third by simp
  have ext: "\<exists>new. users db' = users db @ new" using one two u by auto
  have sub: "set (users db1) \<subseteq> set (users db')" using two u by auto
  have tch: "case uid t of
               Some i \<Rightarrow> tid = i
             | None \<Rightarrow> (\<exists>r\<in>set (users db'). row_id r = tid \<and> row_email r = email t \<and> is_teacher r)"
    using one sub by (auto split: option.splits)
  have lr: "list_all2 (linked_row db') (students t) ids"
  proof (rule list_all2_mono)
    show "list_all2 (linked_row db2) (students t) ids" using two by simp
  next
    fix s i assume "linked_row db2 s i"
    moreover have "set (users db2) \<subseteq> set (users db')" using u by simp
    ultimately show "linked_row db' s i" by (rule linked_row_mono)
  qed
  have lk: "set (teacher_students db') = set (teacher_students db) \<union> (\<lambda>s. (tid, s)) ` set ids"
    using one two three third by simp
  show ?thesis
  proof (intro conjI)
    show "wf_db db'" by (rule wf)
    show "collation db' = collation db" by (rule col)
    show "\<exists>new. users db' = users db @ new" by (rule ext)
    show "\<exists>tid ids.
            (case uid t of
               Some i \<Rightarrow> tid = i
             | None \<Rightarrow> (\<exists>r\<in>set (users db'). row_id r = tid \<and> row_email r = email t \<and> is_teacher r))
          \<and> list_all2 (linked_row db') (students t) ids
          \<and> set (teacher_students db') = set (teacher_students db) \<union> (\<lambda>s. (tid, s)) ` set ids"
      using tch lr lk by (intro exI [of _ tid] exI [of _ ids] conjI)
  qed
qed

lemma save_Teacher_noop:
  "save_Teacher db \<lparr>uid = Some tid, email = e, students = roster db tid\<rparr> = Some db"
proof -
  let ?rows = "filter (\<lambda>r. is_student r \<and> (tid, row_id r) \<in> set (teacher_students db)) (users db)"
  have l: "\<forall>s\<in>set (roster db tid). uid s \<noteq> None"
    by (auto simp: roster_def student_of_row_def)
  have ids: "map (\<lambda>s. the (uid s)) (roster db tid) = map row_id ?rows"
    by (simp add: roster_def student_of_row_def comp_def)
  have "add_links db tid (map row_id ?rows) = db"
    by (rule add_links_noop) auto
  with save_students_loaded [OF l, of db] ids show ?thesis
    by (simp add: save_Teacher_def)
qed

lemma distinct_map_eq:
  "distinct (map f xs) \<Longrightarrow> x \<in> set xs \<Longrightarrow> y \<in> set xs \<Longrightarrow> f x = f y \<Longrightarrow> x = y"
  by (auto simp: distinct_map dest: inj_onD)

lemma stored_lower: "wf_db db \<Longrightarrow> r \<in> set (users db) \<Longrightarrow> toLowerCase (row_email r) = row_email r"
  by (simp add: wf_db_def lowercase_stored_def list_all_iff)

lemma findOne_Teacher_unique:
  assumes "wf_db db" and "r \<in> set (users db)" and "is_teacher r"
  shows "findOne_Teacher db (row_email r) = Some (teacher_of_row db r)"
proof -
  let ?P = "\<lambda>x. is_teacher x \<and> coll_eq (collation db) (row_email x) (row_email r)"
  have "?P r" using assms(3) coll_eq_refl by simp
  with assms(2) have "find ?P (users db) \<noteq> None" by (auto simp: find_None_iff)
  then obtain r' where f: "find ?P (users db) = Some r'" by auto
  then have r': "r' \<in> set (users db)" "?P r'"
    using find_Some_index [OF f] by auto
  have "row_email r' = row_email r"
    using r'(2) stored_lower [OF assms(1) r'(1)] stored_lower [OF assms(1,2)]
    by (simp add: coll_eq_lower)
  moreover have "distinct (map row_email (users db))"
    using assms(1) by (simp add: wf_db_def unique_emails_def)
  ultimately have "r' = r" using r'(1) assms(2) by (rule distinct_map_eq [rotated 3])
  with f show ?thesis by (simp add: findOne_Teacher_def)
qed


section \<open>One successful registration, and the next\<close>

lemma uid_student_of_row: "uid (student_of_row r) = Some (row_id r)"
  by (simp add: student_of_row_def)

lemma uid_new_Student: "uid (new_Student e) = None"
  by (simp add: new_Student_def)

text \<open>What findOrCreate returns on a well-formed storage.\<close>

lemma findOrCreate_wf:
  assumes "wf_db db" and "t \<noteq> []"
  shows "\<exists>teacher. findOrCreate db t = Inr teacher \<and> email teacher = toLowerCase t
           \<and> (case uid teacher of
                 None \<Rightarrow> students teacher = []
               | Some i \<Rightarrow> (\<exists>r\<in>set (users db). is_teacher r \<and> row_id r = i
                              \<and> row_email r = toLowerCase t \<and> students teacher = roster db i))"
proof (cases "find (\<lambda>r. is_teacher r \<and> coll_eq (collation db) (row_email r) (toLowerCase t)) (users db)")
  case None
  with assms(2) show ?thesis by (simp add: findOrCreate_def findOne_Teacher_def)
next
  case (Some r)
  then have r: "r \<in> set (users db)" "is_teacher r" "coll_eq (collation db) (row_email r) (toLowerCase t)"
    using find_Some_index [OF Some] by auto
  have "row_email r = toLowerCase t"
    using r(3) stored_lower [OF assms(1) r(1)] by (simp add: coll_eq_lower toLowerCase_idem)
  with Some r assms(2) show ?thesis
    by (auto simp: findOrCreate_def findOne_Teacher_def teacher_of_row_def)
qed

lemma roster_loaded:
  "s \<in> set (roster db tid) \<Longrightarrow> \<exists>r\<in>set (users db). is_student r \<and> s = student_of_row r"
  by (auto simp: roster_def)

lemma roster_member:
  "r \<in> set (users db) \<Longrightarrow> is_student r \<Longrightarrow> (tid, row_id r) \<in> set (teacher_students db) \<Longrightarrow>
     student_of_row r \<in> set (roster db tid)"
  by (auto simp: roster_def)


lemma list_all2_ex: "list_all2 P xs ys \<Longrightarrow> x \<in> set xs \<Longrightarrow> \<exists>y\<in>set ys. P x y"
  by (induction rule: list_all2_induct) auto

lemma registerStudents_success:
  assumes "registerStudents db t ss = (Inr (), db1)"
  shows "t \<notin> set ss \<and> t \<noteq> [] \<and> (\<forall>e\<in>set ss. e \<noteq> [])
       \<and> (\<exists>teacher studs. findOrCreate db t = Inr teacher \<and> findOrCreateByEmails db ss = Inr studs
            \<and> save_Teacher db (teacher\<lparr>students :=
                  students teacher @ filter (\<lambda>s. email s \<notin> set (map email (students teacher))) studs\<rparr>)
                = Some db1)"
proof -
  have a: "t \<notin> set ss" using assms by (auto simp: registerStudents_def)
  obtain teacher where t1: "findOrCreate db t = Inr teacher"
    using assms a by (auto simp: registerStudents_def split: sum.splits)
  obtain studs where s1: "findOrCreateByEmails db ss = Inr studs"
    using assms a t1 by (auto simp: registerStudents_def split: sum.splits)
  have sv: "save_Teacher db (teacher\<lparr>students :=
                  students teacher @ filter (\<lambda>s. email s \<notin> set (map email (students teacher))) studs\<rparr>)
                = Some db1"
    using assms a t1 s1 by (auto simp: registerStudents_def Let_def split: option.splits)
  have b: "t \<noteq> []" using t1 by (auto simp: findOrCreate_def)
  have c: "\<forall>e\<in>set ss. e \<noteq> []"
    using s1 by (auto simp: findOrCreateByEmails_def list_ex_iff split: if_splits)
  from a b c t1 s1 sv show ?thesis by blast
qed


lemma registerStudents_post:
  assumes "registerStudents db t ss = (Inr (), db1)" and "wf_db db"
  shows "wf_db db1 \<and> collation db1 = collation db \<and> (\<exists>new. users db1 = users db @ new)
       \<and> (\<exists>r\<in>set (users db1). is_teacher r \<and> row_email r = toLowerCase t
             \<and> set (map toLowerCase ss) \<subseteq> set (map email (roster db1 (row_id r))))"
proof -
  let ?L = "map toLowerCase ss"
  from registerStudents_success [OF assms(1)] obtain teacher studs where
    ne: "t \<noteq> []" "\<forall>e\<in>set ss. e \<noteq> []" and
    t1: "findOrCreate db t = Inr teacher" and
    s1: "findOrCreateByEmails db ss = Inr studs" and
    sv: "save_Teacher db (teacher\<lparr>students :=
            students teacher @ filter (\<lambda>s. email s \<notin> set (map email (students teacher))) studs\<rparr>)
          = Some db1"
    by blast
  define added where "added = filter (\<lambda>s. email s \<notin> set (map email (students teacher))) studs"
  define t' where "t' = teacher\<lparr>students := students teacher @ added\<rparr>"
  have sv': "save_Teacher db t' = Some db1" using sv by (simp add: t'_def added_def)
  have low: "lowercase_stored db" using assms(2) by (simp add: wf_db_def)
  \<comment> \<open>the resolved teacher\<close>
  from findOrCreate_wf [OF assms(2) ne(1)] t1 have
    te: "email teacher = toLowerCase t" and
    tc: "case uid teacher of
           None \<Rightarrow> students teacher = []
         | Some i \<Rightarrow> (\<exists>r\<in>set (users db). is_teacher r \<and> row_id r = i
                        \<and> row_email r = toLowerCase t \<and> students teacher = roster db i)"
    by auto
  have tl: "\<forall>s\<in>set (students teacher). \<exists>r\<in>set (users db). is_student r \<and> s = student_of_row r"
    using tc by (auto split: option.splits dest: roster_loaded)
  \<comment> \<open>the resolved students\<close>
  have studs: "studs = map student_of_row
                    (filter (\<lambda>r. is_student r \<and> row_email r \<in> set ?L) (users db))
                  @ map new_Student (filter (\<lambda>e. \<not> stored_student db e) ?L)"
    using findOrCreateByEmails_lower [OF ne(2) low] s1 by simp
  have sl: "\<forall>s\<in>set studs. (\<exists>r\<in>set (users db). is_student r \<and> s = student_of_row r)
                           \<or> (uid s = None \<and> toLowerCase (email s) = email s)"
    unfolding studs by (auto simp: uid_new_Student email_new_Student toLowerCase_idem)
  have se: "set ?L \<subseteq> set (map email studs)"
  proof
    fix e assume e: "e \<in> set ?L"
    show "e \<in> set (map email studs)"
    proof (cases "stored_student db e")
      case True
      then obtain r where "r \<in> set (users db)" "is_student r" "row_email r = e"
        by (auto simp: stored_student_def list_ex_iff)
      with e have "student_of_row r \<in> set studs" unfolding studs by auto
      moreover have "email (student_of_row r) = e" using \<open>row_email r = e\<close> by (simp add: email_student_of_row)
      ultimately show ?thesis by force
    next
      case False
      with e have "new_Student e \<in> set studs" unfolding studs by auto
      then show ?thesis using email_new_Student [of e] by force
    qed
  qed
  \<comment> \<open>the roster handed to save\<close>
  have st': "students t' = students teacher @ added" by (simp add: t'_def)
  have ut': "uid t' = uid teacher" and et': "email t' = toLowerCase t" using te by (simp_all add: t'_def)
  have al: "\<forall>s\<in>set (students t'). (\<exists>r\<in>set (users db). is_student r \<and> s = student_of_row r)
                           \<or> (uid s = None \<and> toLowerCase (email s) = email s)"
    unfolding st' using tl sl by (auto simp: added_def)
  have ae: "set ?L \<subseteq> set (map email (students t'))"
  proof
    fix e assume "e \<in> set ?L"
    with se obtain s where s: "s \<in> set studs" "email s = e" by auto
    show "e \<in> set (map email (students t'))"
    proof (cases "e \<in> set (map email (students teacher))")
      case True
      then show ?thesis unfolding st' by auto
    next
      case False
      with s have "s \<in> set added" by (simp add: added_def)
      with s(2) show ?thesis unfolding st' by force
    qed
  qed
  \<comment> \<open>the save\<close>
  have p1: "uid t' = None \<longrightarrow> toLowerCase (email t') = email t'" by (simp add: et' toLowerCase_idem)
  have p2: "\<forall>s\<in>set (students t'). uid s = None \<longrightarrow> toLowerCase (email s) = email s"
    using al by (auto simp: uid_student_of_row)
  from save_Teacher_post [OF sv' assms(2) p1 p2] obtain tid ids where
    wf1: "wf_db db1" and col: "collation db1 = collation db" and
    ext: "\<exists>new. users db1 = users db @ new" and
    tch: "case uid t' of
            Some i \<Rightarrow> tid = i
          | None \<Rightarrow> (\<exists>r\<in>set (users db1). row_id r = tid \<and> row_email r = email t' \<and> is_teacher r)" and
    lr: "list_all2 (linked_row db1) (students t') ids" and
    lk: "set (teacher_students db1) = set (teacher_students db) \<union> (\<lambda>s. (tid, s)) ` set ids"
    by blast
  from ext have sub: "set (users db) \<subseteq> set (users db1)" by auto
  have row: "\<exists>r\<in>set (users db1). is_teacher r \<and> row_email r = toLowerCase t \<and> row_id r = tid"
  proof (cases "uid teacher")
    case None
    with tch ut' et' show ?thesis by auto
  next
    case (Some i)
    with tc obtain r where "r \<in> set (users db)" "is_teacher r" "row_id r = i" "row_email r = toLowerCase t"
      by auto
    moreover from Some tch ut' have "tid = i" by simp
    ultimately show ?thesis using sub by auto
  qed
  have mem: "email s \<in> set (map email (roster db1 tid))" if s: "s \<in> set (students t')" for s
  proof -
    from list_all2_ex [OF lr s] obtain i where i: "i \<in> set ids" "linked_row db1 s i" by blast
    from i(1) lk have link: "(tid, i) \<in> set (teacher_students db1)" by auto
    have "\<exists>r\<in>set (users db1). is_student r \<and> row_id r = i \<and> row_email r = email s"
    proof (cases "uid s")
      case None
      with i(2) show ?thesis by (auto simp: linked_row_def)
    next
      case (Some j)
      with al s obtain r where "r \<in> set (users db)" "is_student r" "s = student_of_row r" by auto
      moreover from this Some i(2) have "row_id r = i"
        by (simp add: linked_row_def uid_student_of_row)
      ultimately show ?thesis using sub by (auto simp: email_student_of_row)
    qed
    then obtain r where r: "r \<in> set (users db1)" "is_student r" "row_id r = i" "row_email r = email s"
      by blast
    from r(1,2) link r(3) have "student_of_row r \<in> set (roster db1 tid)"
      by (intro roster_member) simp_all
    then have "email (student_of_row r) \<in> set (map email (roster db1 tid))" by simp
    with r(4) show ?thesis by (simp add: email_student_of_row)
  qed
  have "set ?L \<subseteq> set (map email (roster db1 tid))"
    using ae mem by auto
  with row wf1 col ext show ?thesis by blast
qed


lemma registerStudents_again:
  assumes "wf_db db" and "t \<notin> set ss" and "t \<noteq> []" and "\<forall>e\<in>set ss. e \<noteq> []"
      and "r \<in> set (users db)" and "is_teacher r" and "row_email r = toLowerCase t"
      and "set (map toLowerCase ss) \<subseteq> set (map email (roster db (row_id r)))"
  shows "registerStudents db t ss = (Inr (), db)"
proof -
  let ?L = "map toLowerCase ss"
  let ?tid = "row_id r"
  let ?teacher = "\<lparr>uid = Some ?tid, email = row_email r, students = roster db ?tid\<rparr>"
  have low: "lowercase_stored db" using assms(1) by (simp add: wf_db_def)
  have "findOne_Teacher db (toLowerCase t) = Some (teacher_of_row db r)"
    using findOne_Teacher_unique [OF assms(1,5,6)] assms(7) by simp
  then have t1: "findOrCreate db t = Inr ?teacher"
    using assms(3) by (simp add: findOrCreate_def teacher_of_row_def)
  define studs where "studs = map student_of_row
                    (filter (\<lambda>r. is_student r \<and> row_email r \<in> set ?L) (users db))
                  @ map new_Student (filter (\<lambda>e. \<not> stored_student db e) ?L)"
  have s1: "findOrCreateByEmails db ss = Inr studs"
    unfolding studs_def using assms(4) low by (rule findOrCreateByEmails_lower)
  have "\<forall>s\<in>set studs. email s \<in> set ?L"
    unfolding studs_def by (auto simp: email_student_of_row email_new_Student)
  with assms(8) have "\<forall>s\<in>set studs. email s \<in> set (map email (roster db ?tid))" by blast
  then have f: "filter (\<lambda>s. email s \<notin> set (map email (roster db ?tid))) studs = []"
    by (simp add: filter_empty_conv)
  have sv: "save_Teacher db ?teacher = Some db" by (rule save_Teacher_noop)
  show ?thesis
    using assms(2) t1 s1 f sv by (simp add: registerStudents_def Let_def)
qed

lemma registerStudents_failure:
  "fst (registerStudents db t ss) = Inl e \<Longrightarrow> snd (registerStudents db t ss) = db"
  by (auto simp: registerStudents_def Let_def split: if_splits sum.splits option.splits)

lemma roster_distinct: "wf_db db \<Longrightarrow> distinct (map email (roster db tid))"
proof -
  assume "wf_db db"
  then have "distinct (map row_email (users db))" by (simp add: wf_db_def unique_emails_def)
  then have "distinct (map row_email
      (filter (\<lambda>r. is_student r \<and> (tid, row_id r) \<in> set (teacher_students db)) (users db)))"
    by (rule distinct_map_filter)
  then show ?thesis by (simp add: roster_def comp_def email_student_of_row)
qed

lemma registerStudents_wf:
  assumes "wf_db db"
  shows "wf_db (snd (registerStudents db t ss))"
proof (cases "fst (registerStudents db t ss)")
  case (Inl e)
  then show ?thesis using assms registerStudents_failure [of db t ss e] by simp
next
  case (Inr u)
  then have "registerStudents db t ss = (Inr (), snd (registerStudents db t ss))"
    by (metis old.unit.exhaust prod.collapse)
  from registerStudents_post [OF this assms] show ?thesis by simp
qed


section \<open>The operations keep the storage well-formed\<close>

lemma suspend_update_wf:
  assumes "wf_db db"
  shows "wf_db (db\<lparr>users := map (\<lambda>r. if row_id r = i then r\<lparr>row_isSuspended := b\<rparr> else r) (users db)\<rparr>)"
proof -
  define f where "f = (\<lambda>r :: user_row. if row_id r = i then r\<lparr>row_isSuspended := b\<rparr> else r)"
  have fe: "row_email (f r) = row_email r" for r by (simp add: f_def)
  have fi: "row_id (f r) = row_id r" for r by (simp add: f_def)
  have m: "map row_email (map f (users db)) = map row_email (users db)" by (simp add: comp_def fe)
  have n: "map row_id (map f (users db)) = map row_id (users db)" by (simp add: comp_def fi)
  have l: "list_all (\<lambda>r. toLowerCase (row_email r) = row_email r) (map f (users db))"
    using assms by (simp add: wf_db_def lowercase_stored_def list_all_iff fe)
  have u: "users (db\<lparr>users := map f (users db)\<rparr>) = map f (users db)" by simp
  have "wf_db (db\<lparr>users := map f (users db)\<rparr>)"
    unfolding wf_db_def lowercase_stored_def unique_emails_def u m n
    using assms l by (simp add: wf_db_def unique_emails_def)
  then show ?thesis by (simp add: f_def)
qed

lemma suspendStudent_wf:
  assumes "wf_db db"
  shows "wf_db (snd (suspendStudent db e))"
proof (cases "findOne_Student db e")
  case None
  with assms show ?thesis by (simp add: suspendStudent_def)
next
  case (Some s)
  then obtain i where "uid s = Some i" by (auto simp: findOne_Student_def student_of_row_def)
  with Some suspend_update_wf [OF assms, of i True] show ?thesis
    by (simp add: suspendStudent_def save_Student_def cong: if_cong)
qed

lemma reachable_wf: "reachable db \<Longrightarrow> wf_db db"
proof (induction rule: reachable.induct)
  case (init c)
  show ?case by (simp add: wf_db_def lowercase_stored_def unique_emails_def)
next
  case (register db t ss)
  then show ?case by (simp add: registerStudents_wf)
next
  case (suspend db e)
  then show ?case by (simp add: suspendStudent_wf)
qed

lemma wf_distinct_normalized:
  assumes "wf_db db"
  shows "distinct (map (\<lambda>r. toLowerCase (row_email r)) (users db))"
proof -
  have "map (\<lambda>r. toLowerCase (row_email r)) (users db) = map row_email (users db)"
    using assms by (intro map_cong refl) (simp add: stored_lower)
  moreover have "distinct (map row_email (users db))"
    using assms by (simp add: wf_db_def unique_emails_def)
  ultimately show ?thesis by (simp only:)
qed

lemma teacher_not_student: "is_teacher r \<Longrightarrow> \<not> is_student r"
  by (simp add: is_teacher_def is_student_def)

lemma teacher_email_not_student:
  assumes "wf_db db" and "r \<in> set (users db)" and "is_teacher r"
  shows "\<not> stored_student db (row_email r)"
proof
  assume "stored_student db (row_email r)"
  then obtain r' where r': "r' \<in> set (users db)" "is_student r'" "row_email r' = row_email r"
    by (auto simp: stored_student_def list_ex_iff)
  have "distinct (map row_email (users db))" using assms(1) by (simp add: wf_db_def unique_emails_def)
  then have "r' = r" using r'(1) assms(2) r'(3) by (rule distinct_map_eq)
  with r'(2) assms(3) show False by (simp add: teacher_not_student)
qed

lemma insert_existing_email_fails:
  assumes "save_students db [new_Student e] = Some res"
  shows "\<forall>r\<in>set (users db). row_email r \<noteq> e"
proof
  fix r assume r: "r \<in> set (users db)"
  show "row_email r \<noteq> e"
  proof
    assume "row_email r = e"
    then have "coll_eq (collation db) (row_email r) e" by (simp add: coll_eq_refl)
    with r have "insert_user db e StudentType False = None" by (rule insert_user_None)
    with assms show False by (simp add: new_Student_def)
  qed
qed

lemma register_teacher_as_student:
  assumes "wf_db db" and "r \<in> set (users db)" and "is_teacher r"
      and "toLowerCase e = row_email r" and "e \<noteq> []" and "t \<noteq> []" and "t \<noteq> e"
  shows "queryByEmails_Student db [toLowerCase e] = []"
    and "findOrCreateByEmails db [e] = Inr [new_Student (toLowerCase e)]"
    and "registerStudents db t [e] = (Inl InternalError, db)"
proof -
  let ?e = "toLowerCase e"
  have low: "lowercase_stored db" using assms(1) by (simp add: wf_db_def)
  have ns: "\<not> stored_student db ?e"
    using teacher_email_not_student [OF assms(1-3)] assms(4) by simp
  then have flt: "filter (\<lambda>r. is_student r \<and> row_email r \<in> set [?e]) (users db) = []"
    by (auto simp: stored_student_def list_ex_iff filter_empty_conv)
  show q: "queryByEmails_Student db [?e] = []"
    using queryByEmails_Student_lower [OF low, of "[?e]"] flt by (simp add: toLowerCase_idem)
  have f: "findOrCreateByEmails db [e]
             = Inr (map student_of_row (filter (\<lambda>r. is_student r \<and> row_email r \<in> set (map toLowerCase [e])) (users db))
                    @ map new_Student (filter (\<lambda>e. \<not> stored_student db e) (map toLowerCase [e])))"
    using assms(5) low by (intro findOrCreateByEmails_lower) simp_all
  show s1: "findOrCreateByEmails db [e] = Inr [new_Student ?e]"
    using f flt ns by simp
  from findOrCreate_wf [OF assms(1,6)] obtain teacher where
    t1: "findOrCreate db t = Inr teacher" and
    tc: "case uid teacher of
           None \<Rightarrow> students teacher = []
         | Some i \<Rightarrow> (\<exists>r\<in>set (users db). is_teacher r \<and> row_id r = i
                        \<and> row_email r = toLowerCase t \<and> students teacher = roster db i)"
    by blast
  have loaded: "\<forall>s\<in>set (students teacher). \<exists>r\<in>set (users db). is_student r \<and> s = student_of_row r"
    using tc by (auto split: option.splits dest: roster_loaded)
  have "?e \<notin> set (map email (students teacher))"
  proof
    assume "?e \<in> set (map email (students teacher))"
    then obtain s where "s \<in> set (students teacher)" "email s = ?e" by auto
    with loaded obtain r' where "r' \<in> set (users db)" "is_student r'" "row_email r' = ?e"
      by (auto simp: email_student_of_row)
    then have "stored_student db ?e" by (auto simp: stored_student_def list_ex_iff)
    with ns show False by simp
  qed
  then have added: "filter (\<lambda>s. email s \<notin> set (map email (students teacher))) [new_Student ?e]
                      = [new_Student ?e]"
    by (simp add: email_new_Student)
  have ids: "\<forall>s\<in>set (students teacher). uid s \<noteq> None"
    using loaded by (auto simp: uid_student_of_row)
  have fail: "save_students db' (students teacher @ [new_Student ?e]) = None"
    if sub: "set (users db) \<subseteq> set (users db')" for db'
  proof (cases "save_students db' [new_Student ?e]")
    case None
    then show ?thesis using save_students_append [OF ids, of db' "[new_Student ?e]"] by simp
  next
    case (Some res)
    from insert_existing_email_fails [OF Some] sub assms(2,4) show ?thesis by auto
  qed
  have sv: "save_Teacher db (teacher\<lparr>students := students teacher @ [new_Student ?e]\<rparr>) = None"
  proof (cases "uid teacher")
    case (Some i)
    with fail [of db] show ?thesis by (simp add: save_Teacher_def)
  next
    case None
    show ?thesis
    proof (cases "insert_user db (email teacher) TeacherType False")
      case None
      with \<open>uid teacher = None\<close> show ?thesis by (simp add: save_Teacher_def)
    next
      case (Some res)
      obtain db1 tid where res: "res = (db1, tid)" by (cases res)
      from insert_user_Some(1) [OF Some [unfolded res]] have "set (users db) \<subseteq> set (users db1)" by auto
      from fail [OF this] Some res \<open>uid teacher = None\<close> show ?thesis by (simp add: save_Teacher_def)
    qed
  qed
  show "registerStudents db t [e] = (Inl InternalError, db)"
    using assms(7) t1 s1 added sv by (simp add: registerStudents_def Let_def)
qed


section \<open>Letter case in lookups, and the recipients as a set\<close>

lemma toLowerCase_Nil_iff: "(toLowerCase e = []) = (e = [])"
  by (simp add: toLowerCase_def)

lemma coll_eq_ci_variant:
  "toLowerCase e' = toLowerCase e \<Longrightarrow> coll_eq CaseInsensitive a e' = coll_eq CaseInsensitive a e"
  by simp

lemma email_in_ci_variant:
  "collation db = CaseInsensitive \<Longrightarrow> map toLowerCase es' = map toLowerCase es \<Longrightarrow>
     email_in db a es' = email_in db a es"
proof -
  assume c: "collation db = CaseInsensitive" and m: "map toLowerCase es' = map toLowerCase es"
  have "email_in db a xs = (toLowerCase a \<in> set (map toLowerCase xs))" for xs
    using c by (auto simp: email_in_def list_ex_iff)
  moreover have "set (map toLowerCase es') = set (map toLowerCase es)" using m by simp
  ultimately show ?thesis by simp
qed

lemma findOne_Teacher_ci:
  "collation db = CaseInsensitive \<Longrightarrow> toLowerCase e' = toLowerCase e \<Longrightarrow>
     findOne_Teacher db e' = findOne_Teacher db e"
  by (simp add: findOne_Teacher_def)

lemma findOne_Student_ci:
  "collation db = CaseInsensitive \<Longrightarrow> toLowerCase e' = toLowerCase e \<Longrightarrow>
     findOne_Student db e' = findOne_Student db e"
  by (simp add: findOne_Student_def)

lemma query_mentioned_ci:
  "collation db = CaseInsensitive \<Longrightarrow> map toLowerCase ms' = map toLowerCase ms \<Longrightarrow>
     query_mentioned db ms' = query_mentioned db ms"
  using email_in_ci_variant [of db ms' ms] by (simp add: query_mentioned_def)

lemma query_Teachers_ci:
  "collation db = CaseInsensitive \<Longrightarrow> map toLowerCase es' = map toLowerCase es \<Longrightarrow>
     query_Teachers db es' = query_Teachers db es"
  using email_in_ci_variant [of db es' es] by (simp add: query_Teachers_def)

lemma findOrCreate_normalizes: "findOrCreate db e = findOrCreate db (toLowerCase e)"
  by (simp add: findOrCreate_def toLowerCase_idem toLowerCase_Nil_iff)

lemma findOrCreateByEmails_normalizes:
  "findOrCreateByEmails db es = findOrCreateByEmails db (map toLowerCase es)"
proof -
  have "list_ex (\<lambda>e. length e = 0) (map toLowerCase es) = list_ex (\<lambda>e. length e = 0) es"
    by (induction es) (simp_all add: toLowerCase_Nil_iff)
  moreover have "map toLowerCase (map toLowerCase es) = map toLowerCase es"
    by (simp add: toLowerCase_idem)
  ultimately show ?thesis
    by (simp add: findOrCreateByEmails_def Let_def del: map_map)
qed

lemma dedupe_fold:
  "distinct acc \<Longrightarrow>
     distinct (fold (\<lambda>x acc. if x \<in> set acc then acc else acc @ [x]) xs acc)
   \<and> set (fold (\<lambda>x acc. if x \<in> set acc then acc else acc @ [x]) xs acc) = set acc \<union> set xs"
  by (induction xs arbitrary: acc) auto

lemma dedupe_set: "set (dedupe xs) = set xs" and dedupe_distinct: "distinct (dedupe xs)"
  using dedupe_fold [of "[]" xs] by (simp_all add: dedupe_def)

lemma listStudentsForNotification_set:
  assumes "findOne_Teacher db t = Some teacher"
  shows "\<exists>rs. listStudentsForNotification db t str = Inr rs \<and> distinct rs
           \<and> set rs = set (map email (filter (\<lambda>s. \<not> isSuspended s) (students teacher)))
                     \<union> set (map email (query_mentioned db (matchAll None str)))"
proof -
  let ?base = "map email (filter (\<lambda>s. \<not> isSuspended s) (students teacher))"
  let ?ment = "map email (query_mentioned db (matchAll None str))"
  have q: "query_mentioned db [] = []"
    by (simp add: query_mentioned_def email_in_def)
  have r: "listStudentsForNotification db t str = Inr (dedupe (?base @ ?ment))"
  proof (cases "matchAll None str = []")
    case True
    with assms q show ?thesis
      by (simp add: listStudentsForNotification_def match_emailRegex_def Let_def)
  next
    case False
    show ?thesis
    proof (cases "query_mentioned db (matchAll None str) = []")
      case True
      with assms False show ?thesis
        by (simp add: listStudentsForNotification_def match_emailRegex_def Let_def)
    next
      case nonempty: False
      with assms False show ?thesis
        by (simp add: listStudentsForNotification_def match_emailRegex_def Let_def)
    qed
  qed
  have "distinct (dedupe (?base @ ?ment))" by (rule dedupe_distinct)
  moreover have "set (dedupe (?base @ ?ment)) = set ?base \<union> set ?ment"
    by (simp only: dedupe_set set_append)
  ultimately show ?thesis using r by blast
qed

lemma query_mentioned_normalized:
  assumes "collation db = CaseInsensitive" and "lowercase_stored db"
  shows "set (map email (query_mentioned db ms))
           = {toLowerCase m | m. m \<in> set ms
                \<and> (\<exists>r\<in>set (users db). is_student r \<and> \<not> row_isSuspended r \<and> row_email r = toLowerCase m)}"
proof -
  have low: "toLowerCase (row_email r) = row_email r" if "r \<in> set (users db)" for r
    using assms(2) that by (simp add: lowercase_stored_def list_all_iff)
  have in_iff: "email_in db (row_email r) ms = (\<exists>m\<in>set ms. row_email r = toLowerCase m)"
    if "r \<in> set (users db)" for r
    using assms(1) low [OF that] by (simp add: email_in_def list_ex_iff)
  have "set (map email (query_mentioned db ms))
          = {row_email r | r. r \<in> set (users db) \<and> is_student r \<and> \<not> row_isSuspended r
                \<and> email_in db (row_email r) ms}"
    by (auto simp: query_mentioned_def email_student_of_row)
  also have "\<dots> = {row_email r | r. r \<in> set (users db) \<and> is_student r \<and> \<not> row_isSuspended r
                \<and> (\<exists>m\<in>set ms. row_email r = toLowerCase m)}"
    using in_iff by blast
  also have "\<dots> = {toLowerCase m | m. m \<in> set ms
                \<and> (\<exists>r\<in>set (users db). is_student r \<and> \<not> row_isSuspended r \<and> row_email r = toLowerCase m)}"
  proof (intro set_eqI iffI)
    fix x
    assume "x \<in> {row_email r | r. r \<in> set (users db) \<and> is_student r \<and> \<not> row_isSuspended r
                \<and> (\<exists>m\<in>set ms. row_email r = toLowerCase m)}"
    then obtain r m where "x = row_email r" "r \<in> set (users db)" "is_student r"
        "\<not> row_isSuspended r" "m \<in> set ms" "row_email r = toLowerCase m"
      by blast
    then show "x \<in> {toLowerCase m | m. m \<in> set ms
                \<and> (\<exists>r\<in>set (users db). is_student r \<and> \<not> row_isSuspended r \<and> row_email r = toLowerCase m)}"
      by (intro CollectI exI [of _ m]) auto
  next
    fix x
    assume "x \<in> {toLowerCase m | m. m \<in> set ms
                \<and> (\<exists>r\<in>set (users db). is_student r \<and> \<not> row_isSuspended r \<and> row_email r = toLowerCase m)}"
    then obtain r m where "x = toLowerCase m" "r \<in> set (users db)" "is_student r"
        "\<not> row_isSuspended r" "m \<in> set ms" "row_email r = toLowerCase m"
      by blast
    then show "x \<in> {row_email r | r. r \<in> set (users db) \<and> is_student r \<and> \<not> row_isSuspended r
                \<and> (\<exists>m\<in>set ms. row_email r = toLowerCase m)}"
      by (intro CollectI exI [of _ r]) auto
  qed
  finally show ?thesis .
qed

lemma listCommonStudents_ci:
  assumes "collation db = CaseInsensitive" and "map toLowerCase es' = map toLowerCase es"
  shows "listCommonStudents db es' = listCommonStudents db es"
proof -
  have "length (map toLowerCase es') = length (map toLowerCase es)" using assms(2) by simp
  then have "length es' = length es" by (simp only: length_map)
  with query_Teachers_ci [OF assms] show ?thesis by (simp add: listCommonStudents_def)
qed

lemma suspendStudent_ci:
  assumes "collation db = CaseInsensitive" and "toLowerCase e' = toLowerCase e"
  shows "suspendStudent db e' = suspendStudent db e"
  using findOne_Student_ci [OF assms] by (simp add: suspendStudent_def)

lemma listStudentsForNotification_ci:
  assumes "collation db = CaseInsensitive" and "toLowerCase e' = toLowerCase e"
  shows "listStudentsForNotification db e' str = listStudentsForNotification db e str"
  using findOne_Teacher_ci [OF assms] by (simp add: listStudentsForNotification_def)

text \<open>The two outcomes of suspendStudent.\<close>

lemma suspendStudent_cases:
  assumes "distinct (map row_id (users db))"
  shows "(\<not> (\<exists>r\<in>set (users db). is_student r \<and> coll_eq (collation db) (row_email r) e) \<longrightarrow>
            suspendStudent db e = (Inl (NotFound ''student not found''), db))
       \<and> ((\<exists>r\<in>set (users db). is_student r \<and> coll_eq (collation db) (row_email r) e) \<longrightarrow>
            (\<exists>k<length (users db).
                is_student (users db ! k) \<and> coll_eq (collation db) (row_email (users db ! k)) e
              \<and> suspendStudent db e
                  = (Inr (), db\<lparr>users := (users db)[k := (users db ! k)\<lparr>row_isSuspended := True\<rparr>]\<rparr>)))"
proof (intro conjI impI)
  assume "\<not> (\<exists>r\<in>set (users db). is_student r \<and> coll_eq (collation db) (row_email r) e)"
  then have "find (\<lambda>r. is_student r \<and> coll_eq (collation db) (row_email r) e) (users db) = None"
    by (simp add: find_None_iff)
  then show "suspendStudent db e = (Inl (NotFound ''student not found''), db)"
    by (simp add: suspendStudent_def findOne_Student_def)
next
  assume "\<exists>r\<in>set (users db). is_student r \<and> coll_eq (collation db) (row_email r) e"
  then obtain x where x: "find (\<lambda>r. is_student r \<and> coll_eq (collation db) (row_email r) e) (users db) = Some x"
    by (cases "find (\<lambda>r. is_student r \<and> coll_eq (collation db) (row_email r) e) (users db)")
       (auto simp: find_None_iff)
  then obtain k where k: "k < length (users db)" "users db ! k = x"
      "is_student x" "coll_eq (collation db) (row_email x) e"
    using find_Some_index [OF x] by blast
  have "suspendStudent db e
          = (Inr (), db\<lparr>users := map (\<lambda>r. if row_id r = row_id (users db ! k)
                                           then r\<lparr>row_isSuspended := True\<rparr> else r) (users db)\<rparr>)"
    using x k by (simp add: suspendStudent_def findOne_Student_def save_Student_def student_of_row_def)
  also have "map (\<lambda>r. if row_id r = row_id (users db ! k) then r\<lparr>row_isSuspended := True\<rparr> else r) (users db)
               = (users db)[k := (users db ! k)\<lparr>row_isSuspended := True\<rparr>]"
    using assms k(1) by (rule map_update_distinct)
  finally show "\<exists>k<length (users db).
                is_student (users db ! k) \<and> coll_eq (collation db) (row_email (users db ! k)) e
              \<and> suspendStudent db e
                  = (Inr (), db\<lparr>users := (users db)[k := (users db ! k)\<lparr>row_isSuspended := True\<rparr>]\<rparr>)"
    using k by blast
qed

lemma suspendStudent_ci_found:
  assumes "wf_db db" and "collation db = CaseInsensitive" and "stored_student db (toLowerCase e)"
  shows "\<exists>db'. suspendStudent db e = (Inr (), db')
           \<and> list_ex (\<lambda>r. is_student r \<and> row_email r = toLowerCase e \<and> row_isSuspended r) (users db')"
proof -
  from assms(3) obtain r where r: "r \<in> set (users db)" "is_student r" "row_email r = toLowerCase e"
    by (auto simp: stored_student_def list_ex_iff)
  have "coll_eq (collation db) (row_email r) e"
    using assms(2) r(3) by (simp add: toLowerCase_idem)
  with r have ex: "\<exists>r\<in>set (users db). is_student r \<and> coll_eq (collation db) (row_email r) e" by blast
  have d: "distinct (map row_id (users db))" using assms(1) by (simp add: wf_db_def)
  from suspendStudent_cases [OF d, of e] ex obtain k where
    k: "k < length (users db)" "is_student (users db ! k)"
       "coll_eq (collation db) (row_email (users db ! k)) e" and
    res: "suspendStudent db e
            = (Inr (), db\<lparr>users := (users db)[k := (users db ! k)\<lparr>row_isSuspended := True\<rparr>]\<rparr>)"
    by blast
  let ?row = "(users db ! k)\<lparr>row_isSuspended := True\<rparr>"
  have mem: "users db ! k \<in> set (users db)" using k(1) by simp
  have "toLowerCase (row_email (users db ! k)) = toLowerCase e" using k(3) assms(2) by simp
  then have em: "row_email (users db ! k) = toLowerCase e"
    using stored_lower [OF assms(1) mem] by simp
  have "?row \<in> set ((users db)[k := ?row])" using k(1) by (rule set_update_memI)
  moreover have "is_student ?row \<and> row_email ?row = toLowerCase e \<and> row_isSuspended ?row"
    using k(2) em by (simp add: is_student_def)
  ultimately have "list_ex (\<lambda>r. is_student r \<and> row_email r = toLowerCase e \<and> row_isSuspended r)
                     ((users db)[k := ?row])"
    unfolding list_ex_iff by (rule bexI [rotated])
  with res show ?thesis by simp
qed


section \<open>Self-registration is rejected on the raw input\<close>

lemma findOrCreate_not_conflict: "findOrCreate db t \<noteq> Inl (ConflictError m)"
  by (simp add: findOrCreate_def Let_def split: option.splits)

lemma findOrCreateByEmails_not_conflict: "findOrCreateByEmails db ss \<noteq> Inl (ConflictError m)"
  by (simp add: findOrCreateByEmails_def Let_def)

lemma registerStudents_conflict_only:
  "t \<notin> set ss \<Longrightarrow> fst (registerStudents db t ss) \<noteq> Inl (ConflictError m)"
  using findOrCreate_not_conflict [of db t m] findOrCreateByEmails_not_conflict [of db ss m]
  by (auto simp: registerStudents_def Let_def split: sum.splits option.splits)

text \<open>
  Claim C6. When the raw list of student emails contains a string equal to the raw teacher
  email, registerStudents answers with the conflict error "teacher and student cannot be the
  same" whatever the storage holds (so before any lookup, also before the check for empty
  emails) and leaves the storage as it was. When the list does not contain that very string,
  for instance when an entry differs from the teacher email in letter case only, the answer is
  never a conflict error.
\<close>

theorem registerStudents_self_conflict:
  "(t \<in> set ss \<longrightarrow>
      registerStudents db t ss = (Inl (ConflictError ''teacher and student cannot be the same''), db))
   \<and> (t \<notin> set ss \<longrightarrow> (\<forall>m. fst (registerStudents db t ss) \<noteq> Inl (ConflictError m)))"
  using registerStudents_conflict_only [of t ss db]
  by (simp add: registerStudents_def)

theorem registerStudents_self_conflict_witness:
  "registerStudents db_example ''t1@teacher.com'' [''s1@student.com'', ''t1@teacher.com'']
     = (Inl (ConflictError ''teacher and student cannot be the same''), db_example)
   \<and> fst (registerStudents db_example ''T1@teacher.com'' [''t1@teacher.com''])
       \<noteq> Inl (ConflictError ''teacher and student cannot be the same'')"
proof -
  have a: "''t1@teacher.com'' \<in> set [''s1@student.com'', ''t1@teacher.com'']" by simp
  have b: "''T1@teacher.com'' \<notin> set [''t1@teacher.com'']" by simp
  from registerStudents_self_conflict
         [of "''t1@teacher.com''" "[''s1@student.com'', ''t1@teacher.com'']" db_example] a
  have 1: "registerStudents db_example ''t1@teacher.com'' [''s1@student.com'', ''t1@teacher.com'']
     = (Inl (ConflictError ''teacher and student cannot be the same''), db_example)" by blast
  from registerStudents_self_conflict [of "''T1@teacher.com''" "[''t1@teacher.com'']" db_example] b
  have 2: "fst (registerStudents db_example ''T1@teacher.com'' [''t1@teacher.com''])
       \<noteq> Inl (ConflictError ''teacher and student cannot be the same'')" by blast
  from 1 2 show ?thesis by blast
qed


section \<open>A repeated teacher email in the query of common students\<close>

text \<open>
  Claim C2 (evaluation of the code at the failing input). The teacher \<open>t1@teacher.com\<close> is
  stored, and a request for that teacher alone is answered with the roster. A request that
  names the same teacher twice is answered with "teacher not found": the one resolved teacher
  is compared with the length of the raw list of emails, which is two.
\<close>

theorem listCommonStudents_repeated_email:
  "listCommonStudents db_example [''t1@teacher.com''] = Inr [''s1@student.com'', ''s2@student.com'']
   \<and> listCommonStudents db_example [''t1@teacher.com'', ''t1@teacher.com'']
       = Inl (NotFound ''teacher not found'')"
  by code_simp


section \<open>The intersection of rosters\<close>

lemma set_foldl_intersect:
  "set (foldl (\<lambda>a b. filter (\<lambda>elem. elem \<in> set b) a) a bs) = set a \<inter> (\<Inter>b\<in>set bs. set b)"
  by (induction bs arbitrary: a) auto

lemma set_intersect: "ls \<noteq> [] \<Longrightarrow> set (intersect ls) = (\<Inter>l\<in>set ls. set l)"
  by (cases ls) (auto simp: intersect_def set_foldl_intersect)

lemma set_commonStudents:
  "ts \<noteq> [] \<Longrightarrow> set (commonStudents ts) = (\<Inter>t\<in>set ts. set (map email (students t)))"
  by (simp add: commonStudents_def set_intersect)

lemma commonStudents_Nil: "commonStudents [] = []"
  by (simp add: commonStudents_def intersect_def)

lemma commonStudents_perm:
  assumes "mset ts = mset ts'"
  shows "set (commonStudents ts) = set (commonStudents ts')"
proof (cases "ts = []")
  case True
  with assms show ?thesis by simp
next
  case False
  with assms have ne: "ts' \<noteq> []" by auto
  from assms have "set ts = set ts'" by (rule mset_eq_setD)
  with False ne show ?thesis by (simp add: set_commonStudents)
qed

text \<open>
  Claim C8. For a non-empty list of resolved teachers the list of common students holds, as a
  set, exactly the emails that are on the roster of every teacher of the list: the
  intersection of the rosters (for no teacher it is \<open>[]\<close>). So it does not depend, as a set, on
  the order of the teachers: two lists that are permutations of each other give the same set.
  Once every requested teacher is resolved, listCommonStudents answers with that list and not
  with an error, and when no student is on every roster the list is \<open>[]\<close>.
\<close>

theorem commonStudents_order_independent:
  "(ts \<noteq> [] \<longrightarrow> set (commonStudents ts) = (\<Inter>t\<in>set ts. set (map email (students t))))
   \<and> commonStudents [] = []
   \<and> (mset ts = mset ts' \<longrightarrow> set (commonStudents ts) = set (commonStudents ts'))
   \<and> (\<not> length (query_Teachers db emails) < length emails \<longrightarrow>
        listCommonStudents db emails = Inr (commonStudents (query_Teachers db emails)))
   \<and> (\<not> length (query_Teachers db emails) < length emails \<and> query_Teachers db emails \<noteq> [] \<longrightarrow>
        (\<exists>r. listCommonStudents db emails = Inr r
           \<and> set r = (\<Inter>t\<in>set (query_Teachers db emails). set (map email (students t)))))
   \<and> ((\<Inter>t\<in>set ts. set (map email (students t))) = {} \<longrightarrow> commonStudents ts = [])"
proof (intro conjI impI)
  assume "ts \<noteq> []"
  then show "set (commonStudents ts) = (\<Inter>t\<in>set ts. set (map email (students t)))"
    by (rule set_commonStudents)
next
  show "commonStudents [] = []" by (rule commonStudents_Nil)
next
  assume "mset ts = mset ts'"
  then show "set (commonStudents ts) = set (commonStudents ts')" by (rule commonStudents_perm)
next
  assume "\<not> length (query_Teachers db emails) < length emails"
  then show "listCommonStudents db emails = Inr (commonStudents (query_Teachers db emails))"
    by (simp add: listCommonStudents_def Let_def)
next
  assume a: "\<not> length (query_Teachers db emails) < length emails \<and> query_Teachers db emails \<noteq> []"
  then have "listCommonStudents db emails = Inr (commonStudents (query_Teachers db emails))"
    by (simp add: listCommonStudents_def Let_def)
  moreover have "set (commonStudents (query_Teachers db emails))
                   = (\<Inter>t\<in>set (query_Teachers db emails). set (map email (students t)))"
    using a by (intro set_commonStudents) simp
  ultimately show "\<exists>r. listCommonStudents db emails = Inr r
           \<and> set r = (\<Inter>t\<in>set (query_Teachers db emails). set (map email (students t)))"
    by (intro exI conjI)
next
  assume e: "(\<Inter>t\<in>set ts. set (map email (students t))) = {}"
  then have ne: "ts \<noteq> []" by auto
  have "set (commonStudents ts) = (\<Inter>t\<in>set ts. set (map email (students t)))"
    using ne by (rule set_commonStudents)
  with e have "set (commonStudents ts) = {}" by (simp only:)
  then show "commonStudents ts = []" by simp
qed

theorem commonStudents_order_independent_witness:
  "set (commonStudents [teacher_t1, teacher_t2])
     = (\<Inter>t\<in>set [teacher_t1, teacher_t2]. set (map email (students t)))
   \<and> commonStudents [teacher_t1, teacher_t2] = [''s1@student.com'']
   \<and> set (commonStudents [teacher_t1, teacher_t2]) = set (commonStudents [teacher_t2, teacher_t1])
   \<and> listCommonStudents db_example [''t2@teacher.com'', ''T1@teacher.com'']
       = Inr (commonStudents (query_Teachers db_example [''t2@teacher.com'', ''T1@teacher.com'']))
   \<and> listCommonStudents db_example [''t2@teacher.com'', ''T1@teacher.com''] = Inr [''s1@student.com'']
   \<and> commonStudents [teacher_t1, teacher_t3] = []"
proof -
  note inst = commonStudents_order_independent
         [of "[teacher_t1, teacher_t2]" "[teacher_t2, teacher_t1]" db_example
             "[''t2@teacher.com'', ''T1@teacher.com'']"]
  have h0: "[teacher_t1, teacher_t2] \<noteq> []" by simp
  have h1: "mset [teacher_t1, teacher_t2] = mset [teacher_t2, teacher_t1]" by simp
  have h2: "\<not> length (query_Teachers db_example [''t2@teacher.com'', ''T1@teacher.com''])
              < length [''t2@teacher.com'', ''T1@teacher.com'']"
    by code_simp
  have h3: "(\<Inter>t\<in>set [teacher_t1, teacher_t3]. set (map email (students t))) = {}"
    by (simp add: teacher_t1_def teacher_t3_def teacher_of_row_def roster_def db_example_def
        is_student_def student_of_row_def new_Student_def)
  have v1: "commonStudents [teacher_t1, teacher_t2] = [''s1@student.com'']" by code_simp
  have v2: "listCommonStudents db_example [''t2@teacher.com'', ''T1@teacher.com'']
              = Inr [''s1@student.com'']" by code_simp
  have a: "set (commonStudents [teacher_t1, teacher_t2])
     = (\<Inter>t\<in>set [teacher_t1, teacher_t2]. set (map email (students t)))"
    using h0 by (rule inst [THEN conjunct1, rule_format])
  have b: "set (commonStudents [teacher_t1, teacher_t2]) = set (commonStudents [teacher_t2, teacher_t1])"
    using h1 by (rule inst [THEN conjunct2, THEN conjunct2, THEN conjunct1, rule_format])
  have c: "listCommonStudents db_example [''t2@teacher.com'', ''T1@teacher.com'']
       = Inr (commonStudents (query_Teachers db_example [''t2@teacher.com'', ''T1@teacher.com'']))"
    using h2 by (rule inst [THEN conjunct2, THEN conjunct2, THEN conjunct2, THEN conjunct1, rule_format])
  have d: "commonStudents [teacher_t1, teacher_t3] = []"
    using h3
    by (rule commonStudents_order_independent [of "[teacher_t1, teacher_t3]" "[]" db_example "[]",
          THEN conjunct2, THEN conjunct2, THEN conjunct2, THEN conjunct2, THEN conjunct2,
          rule_format])
  from a v1 b c v2 d show ?thesis by (intro conjI)
qed


section \<open>Suspending a student\<close>

text \<open>
  Claim C9 (evaluation of the code at the failing input). On a storage that compares code unit
  by code unit, a student row with the normalised form of \<open>S3@STUDENT.COM\<close> is stored, so the
  student exists with the given normalised email; suspendStudent hands the email to the lookup
  as it was received, answers "student not found" and leaves the storage as it was, where the
  claim has the student suspended. With the email in lower case the same call succeeds.
\<close>

theorem suspendStudent_uppercase_not_found:
  "list_ex (\<lambda>r. is_student r \<and> row_email r = toLowerCase ''S3@STUDENT.COM'') (users db_example_binary)
   \<and> suspendStudent db_example_binary ''S3@STUDENT.COM''
       = (Inl (NotFound ''student not found''), db_example_binary)
   \<and> fst (suspendStudent db_example_binary ''s3@student.com'') = Inr ()"
proof (intro conjI)
  show "list_ex (\<lambda>r. is_student r \<and> row_email r = toLowerCase ''S3@STUDENT.COM'')
          (users db_example_binary)"
    by code_simp
  have "findOne_Student db_example_binary ''S3@STUDENT.COM'' = None" by code_simp
  then show "suspendStudent db_example_binary ''S3@STUDENT.COM''
       = (Inl (NotFound ''student not found''), db_example_binary)"
    by (simp add: suspendStudent_def)
  show "fst (suspendStudent db_example_binary ''s3@student.com'') = Inr ()" by code_simp
qed


section \<open>One Student per input email?\<close>

text \<open>
  Claim C4, as stated, fails: \<open>s1@student.com\<close> is a stored student, the input names it
  twice, and the result is the one stored student, a list of length one for an input of
  length two.
\<close>

theorem findOrCreateByEmails_repeated_stored_counterexample:
  "findOrCreateByEmails db_example [''s1@student.com'', ''s1@student.com'']
     = Inr [\<lparr>uid = Some 3, email = ''s1@student.com'', isSuspended = False\<rparr>]"
  by code_simp

lemma count_list_map_inj:
  "\<forall>y\<in>set xs. f y = f x \<longrightarrow> y = x \<Longrightarrow> count_list (map f xs) (f x) = count_list xs x"
  by (induction xs) auto

lemma count_list_map_none:
  "\<forall>y\<in>set xs. f y \<noteq> v \<Longrightarrow> count_list (map f xs) v = 0"
  by (induction xs) auto

lemma student_of_row_inj:
  "is_student r \<Longrightarrow> is_student r' \<Longrightarrow> student_of_row r' = student_of_row r \<Longrightarrow> r' = r"
  by (cases r, cases r') (simp add: student_of_row_def is_student_def)

text \<open>
  Claim C4, amended. On a storage whose emails are in lower case and pairwise different, for a
  non-empty list of non-empty emails, findOrCreateByEmails returns a list of students in which
  \<^item> for every stored student whose email is a normalised input email, that stored student,
    with its id and its suspension flag, occurs exactly once, however often the input repeats
    the email;
  \<^item> for every normalised input email that belongs to no stored student, the new student
    without id, with that email and not suspended, occurs as often as the email occurs in the
    normalised input (twice when the input names it twice);
  \<^item> nothing else occurs.
  In terms of emails: an email of the first kind occurs once, one of the second kind as often
  as in the input, any other not at all; and when the normalised input emails are pairwise
  different, the result is as long as the input.
\<close>

theorem findOrCreateByEmails_counts:
  assumes "emails \<noteq> []" and "\<forall>e\<in>set emails. e \<noteq> []"
      and "lowercase_stored db" and "unique_emails db"
  shows "\<exists>ss. findOrCreateByEmails db emails = Inr ss
           \<and> (\<forall>r\<in>set (users db). is_student r \<and> row_email r \<in> set (map toLowerCase emails) \<longrightarrow>
                 count_list ss \<lparr>uid = Some (row_id r), email = row_email r,
                                 isSuspended = row_isSuspended r\<rparr> = 1)
           \<and> (\<forall>e\<in>set (map toLowerCase emails). \<not> stored_student db e \<longrightarrow>
                 count_list ss \<lparr>uid = None, email = e, isSuspended = False\<rparr>
                   = count_list (map toLowerCase emails) e)
           \<and> (\<forall>s\<in>set ss.
                 (\<exists>r\<in>set (users db). is_student r \<and> row_email r \<in> set (map toLowerCase emails)
                    \<and> s = \<lparr>uid = Some (row_id r), email = row_email r,
                             isSuspended = row_isSuspended r\<rparr>)
               \<or> (\<exists>e\<in>set (map toLowerCase emails). \<not> stored_student db e
                    \<and> s = \<lparr>uid = None, email = e, isSuspended = False\<rparr>))
           \<and> (\<forall>e. count_list (map email ss) e
                   = (if e \<in> set (map toLowerCase emails)
                      then (if stored_student db e then 1 else count_list (map toLowerCase emails) e)
                      else 0))
           \<and> (distinct (map toLowerCase emails) \<longrightarrow> length ss = length emails)"
proof -
  let ?L = "map toLowerCase emails"
  let ?ex = "filter (\<lambda>r. is_student r \<and> row_email r \<in> set ?L) (users db)"
  let ?mi = "filter (\<lambda>e. \<not> stored_student db e) ?L"
  let ?ss = "map student_of_row ?ex @ map new_Student ?mi"
  have r: "findOrCreateByEmails db emails = Inr ?ss"
    using assms(2,3) by (rule findOrCreateByEmails_lower)
  have em: "map email ?ss = map row_email ?ex @ ?mi"
    by (simp add: comp_def email_student_of_row email_new_Student)
  have d: "distinct (map row_email ?ex)"
    using assms(4) by (simp add: unique_emails_def distinct_map_filter)
  then have dex: "distinct ?ex" by (simp add: distinct_map)
  have sr: "student_of_row x = \<lparr>uid = Some (row_id x), email = row_email x,
                                 isSuspended = row_isSuspended x\<rparr>" for x
    by (simp add: student_of_row_def)
  have ns: "new_Student e = \<lparr>uid = None, email = e, isSuspended = False\<rparr>" for e
    by (simp add: new_Student_def)
  have stored: "count_list ?ss (student_of_row x) = 1"
    if x: "x \<in> set (users db)" "is_student x" "row_email x \<in> set ?L" for x
  proof -
    have inex: "x \<in> set ?ex" using x by simp
    have "count_list (map student_of_row ?ex) (student_of_row x) = count_list ?ex x"
    proof (rule count_list_map_inj, intro ballI impI)
      fix y assume "y \<in> set ?ex" and "student_of_row y = student_of_row x"
      then show "y = x" using x(2) by (intro student_of_row_inj) simp_all
    qed
    also have "\<dots> = 1" using dex inex by (simp add: count_list_distinct)
    finally have a: "count_list (map student_of_row ?ex) (student_of_row x) = 1" .
    have b: "count_list (map new_Student ?mi) (student_of_row x) = 0"
      by (rule count_list_map_none) (simp add: sr ns)
    show ?thesis unfolding count_list_append a b by simp
  qed
  have fresh: "count_list ?ss (new_Student e) = count_list ?L e"
    if e: "e \<in> set ?L" "\<not> stored_student db e" for e
  proof -
    have a: "count_list (map student_of_row ?ex) (new_Student e) = 0"
      by (rule count_list_map_none) (simp add: sr ns)
    have "count_list (map new_Student ?mi) (new_Student e) = count_list ?mi e"
      by (rule count_list_map_inj) (simp add: ns)
    also have "\<dots> = count_list ?L e" using e(2) by (simp add: count_list_filter)
    finally have b: "count_list (map new_Student ?mi) (new_Student e) = count_list ?L e" .
    show ?thesis unfolding count_list_append a b by simp
  qed
  have only: "(\<exists>x\<in>set (users db). is_student x \<and> row_email x \<in> set ?L \<and> s = student_of_row x)
               \<or> (\<exists>e\<in>set ?L. \<not> stored_student db e \<and> s = new_Student e)"
    if "s \<in> set ?ss" for s
    using that by auto
  have cnt: "count_list (map email ?ss) e
               = (if e \<in> set ?L then (if stored_student db e then 1 else count_list ?L e) else 0)" for e
  proof -
    have a: "count_list (map row_email ?ex) e = (if e \<in> set ?L \<and> stored_student db e then 1 else 0)"
    proof (cases "e \<in> set ?L")
      case True
      with d show ?thesis using stored_student_set [of e ?L db] by (simp add: count_list_distinct)
    next
      case False
      then have "e \<notin> set (map row_email ?ex)" by auto
      with False show ?thesis by (simp add: count_list_0_iff)
    qed
    have b: "count_list ?mi e = (if stored_student db e then 0 else count_list ?L e)"
      by (simp add: count_list_filter)
    have c: "e \<notin> set ?L \<Longrightarrow> count_list ?L e = 0" by (simp add: count_list_0_iff)
    have "count_list (map email ?ss) e = count_list (map row_email ?ex) e + count_list ?mi e"
      by (simp only: em count_list_append)
    also have "\<dots> = (if e \<in> set ?L \<and> stored_student db e then 1 else 0)
                     + (if stored_student db e then 0 else count_list ?L e)"
      by (simp only: a b)
    also have "\<dots> = (if e \<in> set ?L then (if stored_student db e then 1 else count_list ?L e) else 0)"
      using c by (cases "e \<in> set ?L"; cases "stored_student db e") simp_all
    finally show ?thesis .
  qed
  have len: "length ?ss = length emails" if dl: "distinct ?L"
  proof -
    have "mset (map email ?ss) = mset ?L"
    proof (rule multiset_eqI)
      fix e
      have "count (mset (map email ?ss)) e = count_list (map email ?ss) e" by (simp only: count_mset)
      also have "\<dots> = (if e \<in> set ?L then (if stored_student db e then 1 else count_list ?L e) else 0)"
        by (rule cnt)
      also have "\<dots> = count_list ?L e"
        using dl by (simp add: count_list_distinct)
      finally show "count (mset (map email ?ss)) e = count (mset ?L) e" by (simp only: count_mset)
    qed
    then have "size (mset (map email ?ss)) = size (mset ?L)" by (rule arg_cong)
    then have "length (map email ?ss) = length ?L" by (simp only: size_mset)
    then show ?thesis by (simp only: length_map)
  qed
  show ?thesis
  proof (intro exI [of _ ?ss] conjI ballI allI impI)
    show "findOrCreateByEmails db emails = Inr ?ss" by (rule r)
  next
    fix x assume "x \<in> set (users db)" and "is_student x \<and> row_email x \<in> set ?L"
    then have "count_list ?ss (student_of_row x) = 1" by (intro stored) simp_all
    then show "count_list ?ss \<lparr>uid = Some (row_id x), email = row_email x,
                                 isSuspended = row_isSuspended x\<rparr> = 1"
      by (simp only: sr)
  next
    fix e assume "e \<in> set ?L" and "\<not> stored_student db e"
    then have "count_list ?ss (new_Student e) = count_list ?L e" by (rule fresh)
    then show "count_list ?ss \<lparr>uid = None, email = e, isSuspended = False\<rparr> = count_list ?L e"
      by (simp only: ns)
  next
    fix s assume "s \<in> set ?ss"
    then have "(\<exists>x\<in>set (users db). is_student x \<and> row_email x \<in> set ?L \<and> s = student_of_row x)
               \<or> (\<exists>e\<in>set ?L. \<not> stored_student db e \<and> s = new_Student e)"
      by (rule only)
    then show "(\<exists>r\<in>set (users db). is_student r \<and> row_email r \<in> set ?L
                    \<and> s = \<lparr>uid = Some (row_id r), email = row_email r,
                             isSuspended = row_isSuspended r\<rparr>)
               \<or> (\<exists>e\<in>set ?L. \<not> stored_student db e
                    \<and> s = \<lparr>uid = None, email = e, isSuspended = False\<rparr>)"
      by (simp only: sr ns)
  next
    fix e
    show "count_list (map email ?ss) e
            = (if e \<in> set ?L then (if stored_student db e then 1 else count_list ?L e) else 0)"
      by (rule cnt)
  next
    assume "distinct ?L"
    then show "length ?ss = length emails" by (rule len)
  qed
qed

theorem findOrCreateByEmails_counts_witness:
  "(\<exists>ss. findOrCreateByEmails db_example [''S2@student.com'', ''s9@student.com'', ''S9@student.com''] = Inr ss
         \<and> count_list ss \<lparr>uid = Some 4, email = ''s2@student.com'', isSuspended = True\<rparr> = 1
         \<and> count_list ss \<lparr>uid = None, email = ''s9@student.com'', isSuspended = False\<rparr> = 2
         \<and> count_list (map email ss) ''s9@student.com'' = 2)
   \<and> (\<exists>ss. findOrCreateByEmails db_example [''S1@student.com'', ''s9@student.com''] = Inr ss
         \<and> length ss = length [''S1@student.com'', ''s9@student.com''])
   \<and> (\<exists>ss. findOrCreateByEmails db_example [''s1@student.com'', ''S1@student.com''] = Inr ss
         \<and> count_list (map email ss) ''s1@student.com'' = 1)"
proof -
  let ?in1 = "[''S2@student.com'', ''s9@student.com'', ''S9@student.com'']"
  let ?in2 = "[''S1@student.com'', ''s9@student.com'']"
  let ?in3 = "[''s1@student.com'', ''S1@student.com'']"
  let ?row = "users db_example ! 3"
  have l: "lowercase_stored db_example" by code_simp
  have u: "unique_emails db_example" by code_simp
  have n1: "?in1 \<noteq> []" "\<forall>e\<in>set ?in1. e \<noteq> []" by simp_all
  have n2: "?in2 \<noteq> []" "\<forall>e\<in>set ?in2. e \<noteq> []" by simp_all
  have n3: "?in3 \<noteq> []" "\<forall>e\<in>set ?in3. e \<noteq> []" by simp_all
  have row: "?row \<in> set (users db_example)" "is_student ?row"
      "row_id ?row = 4" "row_email ?row = ''s2@student.com''" "row_isSuspended ?row = True"
    by (simp_all add: db_example_def is_student_def)
  have rin: "row_email ?row \<in> set (map toLowerCase ?in1)" by code_simp
  have e9: "''s9@student.com'' \<in> set (map toLowerCase ?in1)" by code_simp
  have s9: "\<not> stored_student db_example ''s9@student.com''" by code_simp
  have c9: "count_list (map toLowerCase ?in1) ''s9@student.com'' = 2" by code_simp
  have d2: "distinct (map toLowerCase ?in2)" by code_simp
  have c3: "(if ''s1@student.com'' \<in> set (map toLowerCase ?in3)
             then (if stored_student db_example ''s1@student.com'' then 1
                   else count_list (map toLowerCase ?in3) ''s1@student.com'')
             else 0) = (1::nat)" by code_simp
  from findOrCreateByEmails_counts [OF n1 l u] obtain ss where
    r: "findOrCreateByEmails db_example ?in1 = Inr ss" and
    st: "\<forall>r\<in>set (users db_example). is_student r \<and> row_email r \<in> set (map toLowerCase ?in1) \<longrightarrow>
           count_list ss \<lparr>uid = Some (row_id r), email = row_email r,
                           isSuspended = row_isSuspended r\<rparr> = 1" and
    nw: "\<forall>e\<in>set (map toLowerCase ?in1). \<not> stored_student db_example e \<longrightarrow>
           count_list ss \<lparr>uid = None, email = e, isSuspended = False\<rparr>
             = count_list (map toLowerCase ?in1) e" and
    ce: "\<forall>e. count_list (map email ss) e
                   = (if e \<in> set (map toLowerCase ?in1)
                      then (if stored_student db_example e then 1 else count_list (map toLowerCase ?in1) e)
                      else 0)"
    by blast
  have "count_list ss \<lparr>uid = Some (row_id ?row), email = row_email ?row,
                           isSuspended = row_isSuspended ?row\<rparr> = 1"
    using st row(1,2) rin by blast
  then have a1: "count_list ss \<lparr>uid = Some 4, email = ''s2@student.com'', isSuspended = True\<rparr> = 1"
    by (simp only: row(3,4,5))
  have a2: "count_list ss \<lparr>uid = None, email = ''s9@student.com'', isSuspended = False\<rparr> = 2"
    using nw [rule_format, OF e9 s9] by (simp only: c9)
  have a3: "count_list (map email ss) ''s9@student.com'' = 2"
    using ce [rule_format, of "''s9@student.com''"] by (simp only: e9 s9 c9 if_True if_False)
  have a: "\<exists>ss. findOrCreateByEmails db_example ?in1 = Inr ss
         \<and> count_list ss \<lparr>uid = Some 4, email = ''s2@student.com'', isSuspended = True\<rparr> = 1
         \<and> count_list ss \<lparr>uid = None, email = ''s9@student.com'', isSuspended = False\<rparr> = 2
         \<and> count_list (map email ss) ''s9@student.com'' = 2"
    using r a1 a2 a3 by (intro exI [of _ ss] conjI)
  from findOrCreateByEmails_counts [OF n2 l u] obtain ss2 where
    "findOrCreateByEmails db_example ?in2 = Inr ss2"
    "distinct (map toLowerCase ?in2) \<longrightarrow> length ss2 = length ?in2"
    by blast
  with d2 have b: "\<exists>ss. findOrCreateByEmails db_example ?in2 = Inr ss \<and> length ss = length ?in2"
    by blast
  from findOrCreateByEmails_counts [OF n3 l u] obtain ss3 where
    r3: "findOrCreateByEmails db_example ?in3 = Inr ss3" and
    ce3: "\<forall>e. count_list (map email ss3) e
                   = (if e \<in> set (map toLowerCase ?in3)
                      then (if stored_student db_example e then 1 else count_list (map toLowerCase ?in3) e)
                      else 0)"
    by blast
  have "count_list (map email ss3) ''s1@student.com'' = 1"
    using ce3 [rule_format, of "''s1@student.com''"] by (simp only: c3)
  with r3 have c: "\<exists>ss. findOrCreateByEmails db_example ?in3 = Inr ss
         \<and> count_list (map email ss) ''s1@student.com'' = 1"
    by blast
  from a b c show ?thesis by (intro conjI)
qed


section \<open>Mentions in a notification\<close>







section \<open>Registration is idempotent\<close>

text \<open>
  Claim C5. On a well-formed storage (lower-case emails, no email and no id twice), running
  registerStudents a second time with the same teacher and the same students, from the storage
  the first run left, gives the same response and leaves that storage as it is: the roster of
  the teacher, and everything else, is what the first run produced, because every student the
  second run resolves has an email that is already in the roster and is not appended. No
  roster of the resulting storage holds an email twice.
\<close>

theorem registerStudents_idempotent:
  assumes "wf_db db"
  shows "registerStudents (snd (registerStudents db t ss)) t ss = registerStudents db t ss
       \<and> (\<forall>tid. distinct (map email (roster (snd (registerStudents db t ss)) tid)))"
proof
  show "registerStudents (snd (registerStudents db t ss)) t ss = registerStudents db t ss"
  proof (cases "fst (registerStudents db t ss)")
    case (Inl e)
    then show ?thesis using registerStudents_failure [of db t ss e] by simp
  next
    case (Inr u)
    define db1 where "db1 = snd (registerStudents db t ss)"
    from Inr have r1: "registerStudents db t ss = (Inr (), db1)"
      unfolding db1_def by (metis old.unit.exhaust prod.collapse)
    from registerStudents_success [OF r1] have pre: "t \<notin> set ss" "t \<noteq> []" "\<forall>e\<in>set ss. e \<noteq> []"
      by simp_all
    from registerStudents_post [OF r1 assms] obtain r where
      wf1: "wf_db db1" and r: "r \<in> set (users db1)" "is_teacher r" "row_email r = toLowerCase t"
        "set (map toLowerCase ss) \<subseteq> set (map email (roster db1 (row_id r)))"
      by blast
    have "registerStudents db1 t ss = (Inr (), db1)"
      using wf1 pre r by (rule registerStudents_again)
    with r1 show ?thesis by (simp add: db1_def)
  qed
next
  show "\<forall>tid. distinct (map email (roster (snd (registerStudents db t ss)) tid))"
    using registerStudents_wf [OF assms] roster_distinct by blast
qed

theorem registerStudents_idempotent_witness:
  "wf_db db_empty
   \<and> fst (registerStudents db_empty ''T1@teacher.com'' [''S1@student.com'']) = Inr ()
   \<and> registerStudents (snd (registerStudents db_empty ''T1@teacher.com'' [''S1@student.com'']))
         ''T1@teacher.com'' [''S1@student.com'']
       = registerStudents db_empty ''T1@teacher.com'' [''S1@student.com'']
   \<and> map email (roster (snd (registerStudents db_empty ''T1@teacher.com'' [''S1@student.com''])) 1)
       = [''s1@student.com'']
   \<and> distinct (map email (roster (snd (registerStudents db_empty ''T1@teacher.com'' [''S1@student.com''])) 1))"
proof -
  have w: "wf_db db_empty" by code_simp
  have f: "fst (registerStudents db_empty ''T1@teacher.com'' [''S1@student.com'']) = Inr ()"
    by code_simp
  have r: "map email (roster (snd (registerStudents db_empty ''T1@teacher.com'' [''S1@student.com''])) 1)
       = [''s1@student.com'']"
    by code_simp
  from registerStudents_idempotent [OF w, of "''T1@teacher.com''" "[''S1@student.com'']"] w f r
  show ?thesis by blast
qed


section \<open>Emails are unique over all identities\<close>

text \<open>
  Claim C10. In every storage state that the operations produce from an empty storage, the
  normalised emails of the rows, teachers and students together, are pairwise different. In
  particular, on a well-formed storage where \<open>e\<close> is, up to letter case, the email of a stored
  teacher: the batched lookup of students finds nobody for it, findOrCreateByEmails returns one
  new student without id that carries the normalised email, and registering \<open>e\<close> as a student
  (with any other, non-empty teacher email) ends in the internal error and leaves the
  storage as it was.
\<close>

theorem email_uniqueness:
  "(reachable db \<longrightarrow> distinct (map (\<lambda>r. toLowerCase (row_email r)) (users db)))
   \<and> (wf_db db \<and> r \<in> set (users db) \<and> is_teacher r \<and> toLowerCase e = row_email r
        \<and> e \<noteq> [] \<and> t \<noteq> [] \<and> t \<noteq> e \<longrightarrow>
        queryByEmails_Student db [toLowerCase e] = []
      \<and> findOrCreateByEmails db [e] = Inr [new_Student (toLowerCase e)]
      \<and> uid (new_Student (toLowerCase e)) = None
      \<and> registerStudents db t [e] = (Inl InternalError, db))"
proof (intro conjI impI)
  assume "reachable db"
  then have "wf_db db" by (rule reachable_wf)
  then show "distinct (map (\<lambda>r. toLowerCase (row_email r)) (users db))"
    by (rule wf_distinct_normalized)
next
  assume a: "wf_db db \<and> r \<in> set (users db) \<and> is_teacher r \<and> toLowerCase e = row_email r
        \<and> e \<noteq> [] \<and> t \<noteq> [] \<and> t \<noteq> e"
  then have h: "wf_db db" "r \<in> set (users db)" "is_teacher r" "toLowerCase e = row_email r"
     "e \<noteq> []" "t \<noteq> []" "t \<noteq> e"
    by simp_all
  show "queryByEmails_Student db [toLowerCase e] = []"
    using h by (rule register_teacher_as_student(1))
  show "findOrCreateByEmails db [e] = Inr [new_Student (toLowerCase e)]"
    using h by (rule register_teacher_as_student(2))
  show "uid (new_Student (toLowerCase e)) = None" by (rule uid_new_Student)
  show "registerStudents db t [e] = (Inl InternalError, db)"
    using h by (rule register_teacher_as_student(3))
qed

theorem email_uniqueness_witness:
  "reachable (snd (registerStudents db_empty ''T1@teacher.com'' [''s1@student.com'']))
   \<and> distinct (map (\<lambda>r. toLowerCase (row_email r))
                 (users (snd (registerStudents db_empty ''T1@teacher.com'' [''s1@student.com'']))))
   \<and> wf_db db_example
   \<and> findOrCreateByEmails db_example [''T1@Teacher.com''] = Inr [new_Student ''t1@teacher.com'']
   \<and> registerStudents db_example ''t2@teacher.com'' [''T1@Teacher.com''] = (Inl InternalError, db_example)"
proof -
  have "reachable db_empty" unfolding db_empty_def by (rule reachable.init)
  then have re: "reachable (snd (registerStudents db_empty ''T1@teacher.com'' [''s1@student.com'']))"
    by (rule reachable.register)
  have d: "distinct (map (\<lambda>r. toLowerCase (row_email r))
                 (users (snd (registerStudents db_empty ''T1@teacher.com'' [''s1@student.com'']))))"
    using email_uniqueness [of "snd (registerStudents db_empty ''T1@teacher.com'' [''s1@student.com''])"] re
    by blast
  have w: "wf_db db_example" by code_simp
  have m: "users db_example ! 0 \<in> set (users db_example)" by (simp add: db_example_def)
  have i: "is_teacher (users db_example ! 0)" by (simp add: db_example_def is_teacher_def)
  have l: "toLowerCase ''T1@Teacher.com'' = row_email (users db_example ! 0)" by code_simp
  have l': "toLowerCase ''T1@Teacher.com'' = ''t1@teacher.com''" by code_simp
  have n: "''T1@Teacher.com'' \<noteq> []" "''t2@teacher.com'' \<noteq> []" "''t2@teacher.com'' \<noteq> ''T1@Teacher.com''"
    by simp_all
  from email_uniqueness [of db_example "users db_example ! 0" "''T1@Teacher.com''" "''t2@teacher.com''"]
       w m i l n
  have "findOrCreateByEmails db_example [''T1@Teacher.com''] = Inr [new_Student (toLowerCase ''T1@Teacher.com'')]
      \<and> registerStudents db_example ''t2@teacher.com'' [''T1@Teacher.com''] = (Inl InternalError, db_example)"
    by blast
  with l' re d w show ?thesis by simp
qed


section \<open>The recipients of a notification\<close>

text \<open>
  Claim C1 (evaluation of the code at the failing input). On a storage that compares code unit
  by code unit, the student \<open>s3@student.com\<close> is stored and not suspended, and the text mentions
  that student in upper case: the mention is captured, its normalised form is the email of the
  stored student, and the answer holds the unsuspended member of the roster only. The captured
  string goes to the lookup as it stands in the text. The same mention in lower case adds the
  student to the recipients.
\<close>

theorem recipients_uppercase_mention:
  "list_ex (\<lambda>r. is_student r \<and> row_email r = toLowerCase ''S3@STUDENT.COM'' \<and> \<not> row_isSuspended r)
      (users db_example_binary)
   \<and> matchAll None ''Hello @S3@STUDENT.COM'' = [''S3@STUDENT.COM'']
   \<and> listStudentsForNotification db_example_binary ''t1@teacher.com'' ''Hello @S3@STUDENT.COM''
       = Inr [''s1@student.com'']
   \<and> listStudentsForNotification db_example_binary ''t1@teacher.com'' ''Hello @s3@student.com''
       = Inr [''s1@student.com'', ''s3@student.com'']"
proof (intro conjI)
  show "list_ex (\<lambda>r. is_student r \<and> row_email r = toLowerCase ''S3@STUDENT.COM'' \<and> \<not> row_isSuspended r)
      (users db_example_binary)"
    by code_simp
  show "matchAll None ''Hello @S3@STUDENT.COM'' = [''S3@STUDENT.COM'']" by code_simp
  show "listStudentsForNotification db_example_binary ''t1@teacher.com'' ''Hello @S3@STUDENT.COM''
       = Inr [''s1@student.com'']" by code_simp
  show "listStudentsForNotification db_example_binary ''t1@teacher.com'' ''Hello @s3@student.com''
       = Inr [''s1@student.com'', ''s3@student.com'']" by code_simp
qed

text \<open>
  What the code does guarantee. On a well-formed storage that compares emails without regard
  to letter case, for every stored teacher (addressed by any casing of the teacher's email) and
  every notification text, listStudentsForNotification succeeds with a list without
  repetitions whose elements are exactly: the emails of the members of the teacher's roster
  that are not suspended, together with the normalised captured mentions that are the email of
  a stored student who is not suspended.
\<close>

lemma recipients_union_ci:
  assumes "wf_db db" and "collation db = CaseInsensitive"
      and "r0 \<in> set (users db)" and "is_teacher r0" and "toLowerCase t = row_email r0"
  shows "\<exists>rs. listStudentsForNotification db t str = Inr rs \<and> distinct rs
           \<and> set rs = {email s | s. s \<in> set (roster db (row_id r0)) \<and> \<not> isSuspended s}
                     \<union> {toLowerCase m | m. m \<in> set (matchAll None str)
                          \<and> (\<exists>r\<in>set (users db). is_student r \<and> \<not> row_isSuspended r
                                \<and> row_email r = toLowerCase m)}"
proof -
  have low: "lowercase_stored db" using assms(1) by (simp add: wf_db_def)
  have "toLowerCase (row_email r0) = toLowerCase (toLowerCase t)" using assms(5) by simp
  then have "toLowerCase t = toLowerCase (row_email r0)" by (simp only: toLowerCase_idem)
  then have "findOne_Teacher db t = findOne_Teacher db (row_email r0)"
    using assms(2) by (rule findOne_Teacher_ci [rotated])
  also have "\<dots> = Some (teacher_of_row db r0)"
    using assms(1,3,4) by (rule findOne_Teacher_unique)
  finally have f: "findOne_Teacher db t = Some (teacher_of_row db r0)" .
  from listStudentsForNotification_set [OF f, of str] obtain rs where
    rs: "listStudentsForNotification db t str = Inr rs" "distinct rs"
        "set rs = set (map email (filter (\<lambda>s. \<not> isSuspended s) (students (teacher_of_row db r0))))
                     \<union> set (map email (query_mentioned db (matchAll None str)))"
    by blast
  have a: "set (map email (filter (\<lambda>s. \<not> isSuspended s) (students (teacher_of_row db r0))))
             = {email s | s. s \<in> set (roster db (row_id r0)) \<and> \<not> isSuspended s}"
    by (auto simp: teacher_of_row_def)
  note b = query_mentioned_normalized [OF assms(2) low, of "matchAll None str"]
  have s: "set rs = {email s | s. s \<in> set (roster db (row_id r0)) \<and> \<not> isSuspended s}
                     \<union> {toLowerCase m | m. m \<in> set (matchAll None str)
                          \<and> (\<exists>r\<in>set (users db). is_student r \<and> \<not> row_isSuspended r
                                \<and> row_email r = toLowerCase m)}"
    using rs(3) by (simp only: a b)
  show ?thesis
  proof (intro exI [of _ rs] conjI)
    show "listStudentsForNotification db t str = Inr rs" by (rule rs(1))
    show "distinct rs" by (rule rs(2))
    show "set rs = {email s | s. s \<in> set (roster db (row_id r0)) \<and> \<not> isSuspended s}
                     \<union> {toLowerCase m | m. m \<in> set (matchAll None str)
                          \<and> (\<exists>r\<in>set (users db). is_student r \<and> \<not> row_isSuspended r
                                \<and> row_email r = toLowerCase m)}"
      by (rule s)
  qed
qed


section \<open>Letter case of emails\<close>

text \<open>
  Claim C3 (evaluation of the code at the failing input). On a storage that compares code unit
  by code unit, with the teacher \<open>t1@teacher.com\<close> and the student \<open>s1@student.com\<close> stored:
  findOrCreate, which lower-cases its argument, resolves the teacher from the upper-case email;
  listCommonStudents and listStudentsForNotification, given the same upper-case email, answer
  "teacher not found", and suspendStudent, given the student's email in upper case, answers
  "student not found" and leaves the storage as it was. These three operations compare the
  email as it was received.
\<close>

theorem lookups_not_normalized:
  "toLowerCase ''T1@TEACHER.COM'' = ''t1@teacher.com''
   \<and> map_sum id uid (findOrCreate db_example_binary ''T1@TEACHER.COM'') = Inr (Some 1)
   \<and> listCommonStudents db_example_binary [''T1@TEACHER.COM''] = Inl (NotFound ''teacher not found'')
   \<and> listStudentsForNotification db_example_binary ''T1@TEACHER.COM'' ''Hello''
       = Inl (NotFound ''teacher not found'')
   \<and> stored_student db_example_binary (toLowerCase ''S1@STUDENT.COM'')
   \<and> suspendStudent db_example_binary ''S1@STUDENT.COM''
       = (Inl (NotFound ''student not found''), db_example_binary)"
proof (intro conjI)
  show "toLowerCase ''T1@TEACHER.COM'' = ''t1@teacher.com''" by code_simp
  show "map_sum id uid (findOrCreate db_example_binary ''T1@TEACHER.COM'') = Inr (Some 1)"
    by code_simp
  show "listCommonStudents db_example_binary [''T1@TEACHER.COM''] = Inl (NotFound ''teacher not found'')"
    by code_simp
  show "listStudentsForNotification db_example_binary ''T1@TEACHER.COM'' ''Hello''
       = Inl (NotFound ''teacher not found'')" by code_simp
  show "stored_student db_example_binary (toLowerCase ''S1@STUDENT.COM'')" by code_simp
  have "findOne_Student db_example_binary ''S1@STUDENT.COM'' = None" by code_simp
  then show "suspendStudent db_example_binary ''S1@STUDENT.COM''
       = (Inl (NotFound ''student not found''), db_example_binary)"
    by (simp add: suspendStudent_def)
qed

text \<open>
  What the code does guarantee. The two functions that registerStudents resolves identities
  with give the same result for an email and for its lower-case form, and a registration on a
  well-formed storage leaves only lower-case emails stored. When the storage compares without
  regard to letter case, any two casings of an email give the same result of suspendStudent
  and of listStudentsForNotification (as the teacher email), any two lists of emails that
  agree up to letter case give the same result of listCommonStudents and the same mentioned
  students, and, the storage being well-formed, suspendStudent with any casing of a stored
  student's email succeeds and leaves a student row with that email suspended.
\<close>

lemma casing_variants_ci:
  "findOrCreate db e = findOrCreate db (toLowerCase e)
   \<and> findOrCreateByEmails db es = findOrCreateByEmails db (map toLowerCase es)
   \<and> (wf_db db \<longrightarrow> lowercase_stored (snd (registerStudents db t ss)))
   \<and> (collation db = CaseInsensitive \<and> toLowerCase e' = toLowerCase e \<longrightarrow>
         suspendStudent db e' = suspendStudent db e
       \<and> listStudentsForNotification db e' str = listStudentsForNotification db e str)
   \<and> (collation db = CaseInsensitive \<and> map toLowerCase es' = map toLowerCase es \<longrightarrow>
         listCommonStudents db es' = listCommonStudents db es
       \<and> query_mentioned db es' = query_mentioned db es)
   \<and> (wf_db db \<and> collation db = CaseInsensitive \<and> stored_student db (toLowerCase e) \<longrightarrow>
         (\<exists>db'. suspendStudent db e = (Inr (), db')
            \<and> list_ex (\<lambda>r. is_student r \<and> row_email r = toLowerCase e \<and> row_isSuspended r)
                 (users db')))"
proof (intro conjI impI)
  show "findOrCreate db e = findOrCreate db (toLowerCase e)" by (rule findOrCreate_normalizes)
  show "findOrCreateByEmails db es = findOrCreateByEmails db (map toLowerCase es)"
    by (rule findOrCreateByEmails_normalizes)
next
  assume "wf_db db"
  then have "wf_db (snd (registerStudents db t ss))" by (rule registerStudents_wf)
  then show "lowercase_stored (snd (registerStudents db t ss))" by (simp add: wf_db_def)
next
  assume a: "collation db = CaseInsensitive \<and> toLowerCase e' = toLowerCase e"
  then have c: "collation db = CaseInsensitive" and l: "toLowerCase e' = toLowerCase e" by simp_all
  from c l show "suspendStudent db e' = suspendStudent db e" by (rule suspendStudent_ci)
  from c l show "listStudentsForNotification db e' str = listStudentsForNotification db e str"
    by (rule listStudentsForNotification_ci)
next
  assume a: "collation db = CaseInsensitive \<and> map toLowerCase es' = map toLowerCase es"
  then have c: "collation db = CaseInsensitive" and l: "map toLowerCase es' = map toLowerCase es"
    by simp_all
  from c l show "listCommonStudents db es' = listCommonStudents db es" by (rule listCommonStudents_ci)
  from c l show "query_mentioned db es' = query_mentioned db es" by (rule query_mentioned_ci)
next
  assume "wf_db db \<and> collation db = CaseInsensitive \<and> stored_student db (toLowerCase e)"
  then have "wf_db db" "collation db = CaseInsensitive" "stored_student db (toLowerCase e)"
    by simp_all
  then show "\<exists>db'. suspendStudent db e = (Inr (), db')
            \<and> list_ex (\<lambda>r. is_student r \<and> row_email r = toLowerCase e \<and> row_isSuspended r)
                 (users db')"
    by (rule suspendStudent_ci_found)
qed


end
